theory Spec2Isabelle
  imports Complex_Main "HOL-Library.Word" "HOL-Library.AList"
begin

section \<open>Strings and amounts\<close>

text \<open>
  A JavaScript string is a sequence of UTF-16 code units; \<open>length\<close>, \<open>slice\<close> and a
  regular expression without the \<open>u\<close> flag all count code units. Literals of the source
  are ASCII and are written through \<open>js\<close>.

  In the records, an amount is the decimal a JSON response carries and a quantity is an
  integer. The client computes with amounts in the cart and checkout pages only, and
  there with IEEE doubles (section Numbers): a page reads an amount as the double nearest
  to the decimal, as \<open>response.json()\<close> delivers it.
\<close>

type_synonym code_unit = "16 word"
type_synonym jsstring = "code_unit list"

definition js :: "string \<Rightarrow> jsstring" where
  "js s = map (\<lambda>c. of_nat (of_char c)) s"

section \<open>Data model of the client\<close>

text \<open>
  The interfaces \<open>Product\<close>, \<open>CartItem\<close> and \<open>Cart\<close> of \<open>@/types\<close>, field by field.
\<close>

datatype roast = Light | Medium | Dark

record product =
  p_id :: jsstring
  p_name :: jsstring
  p_description :: jsstring
  p_price :: rat
  p_category :: jsstring
  p_roast_level :: roast
  p_origin :: jsstring
  p_image_url :: jsstring
  p_in_stock :: bool
  p_weight :: jsstring
  p_flavor_notes :: "jsstring list"
  p_processing_method :: jsstring

record cart_item =
  i_product_id :: jsstring
  i_product :: product
  i_quantity :: int
  i_subtotal :: rat

record cart =
  cart_id :: jsstring
  items :: "cart_item list"
  total_items :: int
  subtotal :: rat

section \<open>The API client (\<open>lib/api/client\<close>)\<close>

text \<open>
  \<open>apiRequest\<close> either resolves to the decoded response or throws. What it throws is an
  \<open>Error\<close> carrying a message; the \<open>catch\<close> blocks of the callers also provide for a thrown
  value that is no \<open>Error\<close>. The remote end is a parameter: a function from the request and
  the state of the world to the response and the new state of the world. The four
  functions of \<open>cartApi\<close> differ only in the request they build, so a request is named by
  its method and path: \<open>getCart\<close> is \<open>GET_cart\<close>, \<open>addToCart\<close> is \<open>POST_cart\<close>,
  \<open>updateCartItem\<close> is \<open>PUT_cart\<close> and \<open>removeFromCart\<close> is \<open>DELETE_cart\<close>.
\<close>

datatype thrown = ErrorObj jsstring | NonError

datatype cart_request =
    GET_cart
  | POST_cart jsstring int
  | PUT_cart jsstring int
  | DELETE_cart jsstring

type_synonym 'w cart_remote = "cart_request \<Rightarrow> 'w \<Rightarrow> (thrown + cart) \<times> 'w"

section \<open>The cart context (\<open>contexts/CartContext\<close>)\<close>

record CartContextState =
  cart :: "cart option"
  loading :: bool
  error :: "jsstring option"

datatype CartAction =
    SET_LOADING bool
  | SET_ERROR "jsstring option"
  | SET_CART cart
  | CLEAR_CART

definition initialState :: CartContextState where
  "initialState = \<lparr>cart = None, loading = False, error = None\<rparr>"

fun cartReducer :: "CartContextState \<Rightarrow> CartAction \<Rightarrow> CartContextState" where
  "cartReducer state (SET_LOADING payload) = state\<lparr>loading := payload\<rparr>"
| "cartReducer state (SET_ERROR payload) = state\<lparr>error := payload, loading := False\<rparr>"
| "cartReducer state (SET_CART payload) =
     state\<lparr>cart := Some payload, loading := False, error := None\<rparr>"
| "cartReducer state CLEAR_CART = state\<lparr>cart := None\<rparr>"

text \<open>
  The provider: the reducer's state, the world behind the API and the requests issued so
  far, in order. Each operation dispatches to the reducer and calls the API as the source
  does; \<open>errorMessage\<close> is the message of a thrown \<open>Error\<close> and the operation's own text
  otherwise.
\<close>

record 'w provider =
  cache :: CartContextState
  world :: 'w
  sent :: "cart_request list"

definition dispatch :: "CartAction \<Rightarrow> 'w provider \<Rightarrow> 'w provider" where
  "dispatch action pr = pr\<lparr>cache := cartReducer (cache pr) action\<rparr>"

definition call :: "'w cart_remote \<Rightarrow> cart_request \<Rightarrow> 'w provider \<Rightarrow> (thrown + cart) \<times> 'w provider" where
  "call remote req pr =
     (case remote req (world pr) of
        (res, w') \<Rightarrow> (res, pr\<lparr>world := w', sent := sent pr @ [req]\<rparr>))"

definition errorMessage :: "thrown \<Rightarrow> string \<Rightarrow> jsstring" where
  "errorMessage e fallback = (case e of ErrorObj m \<Rightarrow> m | NonError \<Rightarrow> js fallback)"

definition refreshCart :: "'w cart_remote \<Rightarrow> 'w provider \<Rightarrow> 'w provider" where
  "refreshCart remote pr =
     (let pr1 = dispatch (SET_LOADING True) pr in
      case call remote GET_cart pr1 of
        (Inr c, pr2) \<Rightarrow> dispatch (SET_CART c) pr2
      | (Inl e, pr2) \<Rightarrow> dispatch (SET_ERROR (Some (errorMessage e ''Failed to load cart''))) pr2)"

definition addToCart :: "'w cart_remote \<Rightarrow> product \<Rightarrow> int \<Rightarrow> 'w provider \<Rightarrow> 'w provider" where
  "addToCart remote product quantity pr =
     (if quantity \<le> 0 then pr
      else
        let pr1 = dispatch (SET_LOADING True) pr in
        case call remote (POST_cart (p_id product) quantity) pr1 of
          (Inr updatedCart, pr2) \<Rightarrow> dispatch (SET_CART updatedCart) pr2
        | (Inl e, pr2) \<Rightarrow>
            dispatch (SET_ERROR (Some (errorMessage e ''Failed to add item to cart''))) pr2)"

definition removeFromCart :: "'w cart_remote \<Rightarrow> jsstring \<Rightarrow> 'w provider \<Rightarrow> 'w provider" where
  "removeFromCart remote productId pr =
     (let pr1 = dispatch (SET_LOADING True) pr in
      case call remote (DELETE_cart productId) pr1 of
        (Inr updatedCart, pr2) \<Rightarrow> dispatch (SET_CART updatedCart) pr2
      | (Inl e, pr2) \<Rightarrow>
          dispatch (SET_ERROR (Some (errorMessage e ''Failed to remove item from cart''))) pr2)"

definition updateQuantity :: "'w cart_remote \<Rightarrow> jsstring \<Rightarrow> int \<Rightarrow> 'w provider \<Rightarrow> 'w provider" where
  "updateQuantity remote productId quantity pr =
     (if quantity \<le> 0 then removeFromCart remote productId pr
      else
        let pr1 = dispatch (SET_LOADING True) pr in
        case call remote (PUT_cart productId quantity) pr1 of
          (Inr updatedCart, pr2) \<Rightarrow> dispatch (SET_CART updatedCart) pr2
        | (Inl e, pr2) \<Rightarrow>
            dispatch (SET_ERROR (Some (errorMessage e ''Failed to update cart item''))) pr2)"

definition getItemCount :: "CartContextState \<Rightarrow> int" where
  "getItemCount state = (case cart state of None \<Rightarrow> 0 | Some c \<Rightarrow> total_items c)"

definition getCartTotal :: "CartContextState \<Rightarrow> rat" where
  "getCartTotal state = (case cart state of None \<Rightarrow> 0 | Some c \<Rightarrow> subtotal c)"

text \<open>
  The three mutations of the context, and the request each one issues (none for an
  \<open>addToCart\<close> whose quantity is not positive).
\<close>

datatype mutation = Add product int | Update jsstring int | Remove jsstring

fun perform :: "'w cart_remote \<Rightarrow> mutation \<Rightarrow> 'w provider \<Rightarrow> 'w provider" where
  "perform remote (Add p q) = addToCart remote p q"
| "perform remote (Update productId q) = updateQuantity remote productId q"
| "perform remote (Remove productId) = removeFromCart remote productId"

fun request_of :: "mutation \<Rightarrow> cart_request option" where
  "request_of (Add p q) = (if q \<le> 0 then None else Some (POST_cart (p_id p) q))"
| "request_of (Update productId q) =
     (if q \<le> 0 then Some (DELETE_cart productId) else Some (PUT_cart productId q))"
| "request_of (Remove productId) = Some (DELETE_cart productId)"

section \<open>Regular expressions\<close>

text \<open>
  \<open>RegExp.prototype.test\<close> with a pattern anchored by \<open>^\<close> and \<open>$\<close> (no flags) decides
  whether the whole string belongs to the pattern's language. A pattern is a value of
  \<open>regexp\<close>; \<open>lang\<close> is its language, and \<open>test\<close> decides membership by taking the
  residual pattern after each code unit.
\<close>

datatype regexp =
    Fail
  | Empty
  | Class "code_unit \<Rightarrow> bool"
  | Seq regexp regexp
  | Alt regexp regexp
  | Star regexp

inductive_set repeats :: "jsstring set \<Rightarrow> jsstring set" for A :: "jsstring set" where
  none: "[] \<in> repeats A"
| more: "u \<in> A \<Longrightarrow> v \<in> repeats A \<Longrightarrow> u @ v \<in> repeats A"

fun lang :: "regexp \<Rightarrow> jsstring set" where
  "lang Fail = {}"
| "lang Empty = {[]}"
| "lang (Class P) = {[c] | c. P c}"
| "lang (Seq r s) = {u @ v | u v. u \<in> lang r \<and> v \<in> lang s}"
| "lang (Alt r s) = lang r \<union> lang s"
| "lang (Star r) = repeats (lang r)"

fun nullable :: "regexp \<Rightarrow> bool" where
  "nullable Fail = False"
| "nullable Empty = True"
| "nullable (Class P) = False"
| "nullable (Seq r s) = (nullable r \<and> nullable s)"
| "nullable (Alt r s) = (nullable r \<or> nullable s)"
| "nullable (Star r) = True"

fun after :: "code_unit \<Rightarrow> regexp \<Rightarrow> regexp" where
  "after c Fail = Fail"
| "after c Empty = Fail"
| "after c (Class P) = (if P c then Empty else Fail)"
| "after c (Seq r s) =
     (if nullable r then Alt (Seq (after c r) s) (after c s) else Seq (after c r) s)"
| "after c (Alt r s) = Alt (after c r) (after c s)"
| "after c (Star r) = Seq (after c r) (Star r)"

fun test :: "regexp \<Rightarrow> jsstring \<Rightarrow> bool" where
  "test r [] = nullable r"
| "test r (c # cs) = test (after c r) cs"

text \<open>The operators \<open>+\<close>, \<open>?\<close> and \<open>{n}\<close>, and a literal code unit.\<close>

definition OneOrMore :: "regexp \<Rightarrow> regexp" where
  "OneOrMore r = Seq r (Star r)"

definition Opt :: "regexp \<Rightarrow> regexp" where
  "Opt r = Alt r Empty"

fun Exactly :: "nat \<Rightarrow> regexp \<Rightarrow> regexp" where
  "Exactly 0 r = Empty"
| "Exactly (Suc n) r = Seq r (Exactly n r)"

definition lit :: "code_unit \<Rightarrow> regexp" where
  "lit a = Class (\<lambda>c. c = a)"

text \<open>
  The classes. \<open>\s\<close> is ECMAScript's WhiteSpace and LineTerminator: tab, line feed,
  vertical tab, form feed, carriage return, space, no-break space, U+1680, U+2000 to
  U+200A, U+2028, U+2029, U+202F, U+205F, U+3000 and U+FEFF. \<open>\d\<close> is the ten ASCII
  digits. \<open>[^\s@]\<close> is any code unit that is neither white space nor \<open>@\<close> (U+0040).
\<close>

definition isWhiteSpace :: "code_unit \<Rightarrow> bool" where
  "isWhiteSpace c \<longleftrightarrow>
     c \<in> {0x0009, 0x000A, 0x000B, 0x000C, 0x000D, 0x0020, 0x00A0, 0x1680, 0x2028, 0x2029,
          0x202F, 0x205F, 0x3000, 0xFEFF} \<or> (0x2000 \<le> c \<and> c \<le> 0x200A)"

definition isDigit :: "code_unit \<Rightarrow> bool" where
  "isDigit c \<longleftrightarrow> 0x30 \<le> c \<and> c \<le> 0x39"

definition notSpaceAt :: "code_unit \<Rightarrow> bool" where
  "notSpaceAt c \<longleftrightarrow> \<not> isWhiteSpace c \<and> c \<noteq> 0x40"

text \<open>\<^verbatim>\<open>/^[^\s@]+@[^\s@]+\.[^\s@]+$/\<close> and \<^verbatim>\<open>/^\d{5}(-\d{4})?$/\<close>.\<close>

definition emailRegex :: regexp where
  "emailRegex =
     Seq (OneOrMore (Class notSpaceAt))
       (Seq (lit 0x40)
         (Seq (OneOrMore (Class notSpaceAt))
           (Seq (lit 0x2E) (OneOrMore (Class notSpaceAt)))))"

definition zipRegex :: regexp where
  "zipRegex = Seq (Exactly 5 (Class isDigit)) (Opt (Seq (lit 0x2D) (Exactly 4 (Class isDigit))))"

section \<open>Numbers\<close>

text \<open>
  A JavaScript \<open>number\<close> is an IEEE-754 binary64 value: a finite double, an infinity or
  NaN. A finite double is modelled by the rational it denotes (the two zeros are
  identified: nothing computed here tells them apart). Every arithmetic operation
  computes the exact result and rounds it to the nearest double, ties to the even
  significand; a numeric literal of the source, and a decimal of a JSON response, denote
  the double nearest to it.

  \<open>round64\<close> is that rounding. For a magnitude \<open>a\<close> between \<open>pow2 e\<close> and \<open>pow2 (e + 1)\<close>
  the doubles around it are the multiples of \<open>pow2 (e - 52)\<close>, and the multiples of
  \<open>pow2 (- 1074)\<close> in the subnormal range below \<open>pow2 (- 1022)\<close>; a result that reaches
  \<open>pow2 1024\<close> after rounding overflows to an infinity. \<open>exponent\<close> finds \<open>e\<close> by
  bisection of the normal range.
\<close>

datatype number = Finite rat | PosInfinity | NegInfinity | NaN

definition pow2 :: "int \<Rightarrow> rat" where
  "pow2 e = (if 0 \<le> e then 2 ^ nat e else 1 / 2 ^ nat (- e))"

fun exponent :: "nat \<Rightarrow> int \<Rightarrow> int \<Rightarrow> rat \<Rightarrow> int" where
  "exponent 0 lo hi a = lo"
| "exponent (Suc n) lo hi a =
     (if hi \<le> lo + 1 then lo
      else if pow2 ((lo + hi) div 2) \<le> a then exponent n ((lo + hi) div 2) hi a
      else exponent n lo ((lo + hi) div 2) a)"

definition nearestEven :: "rat \<Rightarrow> int" where
  "nearestEven m =
     (let f = \<lfloor>m\<rfloor>; r = m - of_int f
      in if r < 1 / 2 then f else if 1 / 2 < r then f + 1 else if even f then f else f + 1)"

definition round64 :: "rat \<Rightarrow> number" where
  "round64 x =
     (let a = \<bar>x\<bar> in
      if a = 0 then Finite 0
      else
        let q = (if a < pow2 (- 1022) then - 1074
                 else if pow2 1024 \<le> a then 971
                 else exponent 11 (- 1022) 1024 a - 52);
            r = of_int (nearestEven (a / pow2 q)) * pow2 q
        in if pow2 1024 \<le> r then (if x < 0 then NegInfinity else PosInfinity)
           else Finite (if x < 0 then - r else r))"

text \<open>
  The operators \<open>+\<close>, \<open>*\<close> and \<open>>=\<close> on numbers: NaN is contagious and compares false with
  everything, the infinities follow the usual rules (opposite infinities add up to NaN,
  an infinity times zero is NaN).
\<close>

fun negate :: "number \<Rightarrow> number" where
  "negate (Finite a) = Finite (- a)"
| "negate PosInfinity = NegInfinity"
| "negate NegInfinity = PosInfinity"
| "negate NaN = NaN"

fun num_plus :: "number \<Rightarrow> number \<Rightarrow> number" where
  "num_plus (Finite a) (Finite b) = round64 (a + b)"
| "num_plus NaN y = NaN"
| "num_plus x NaN = NaN"
| "num_plus PosInfinity NegInfinity = NaN"
| "num_plus NegInfinity PosInfinity = NaN"
| "num_plus PosInfinity y = PosInfinity"
| "num_plus x PosInfinity = PosInfinity"
| "num_plus NegInfinity y = NegInfinity"
| "num_plus x NegInfinity = NegInfinity"

fun num_times :: "number \<Rightarrow> number \<Rightarrow> number" where
  "num_times (Finite a) (Finite b) = round64 (a * b)"
| "num_times NaN y = NaN"
| "num_times x NaN = NaN"
| "num_times (Finite a) y = (if a = 0 then NaN else if 0 < a then y else negate y)"
| "num_times x (Finite b) = (if b = 0 then NaN else if 0 < b then x else negate x)"
| "num_times PosInfinity y = y"
| "num_times NegInfinity y = negate y"

fun num_ge :: "number \<Rightarrow> number \<Rightarrow> bool" where
  "num_ge (Finite a) (Finite b) = (b \<le> a)"
| "num_ge NaN y = False"
| "num_ge x NaN = False"
| "num_ge PosInfinity y = True"
| "num_ge x NegInfinity = True"
| "num_ge x PosInfinity = False"
| "num_ge NegInfinity y = False"

section \<open>The cart and checkout pages\<close>

subsection \<open>Order summaries\<close>

text \<open>
  \<open>OrderSummary\<close> of the cart page and \<open>CheckoutSummary\<close> of the checkout page compute the
  same three amounts from the subtotal before rendering them: \<open>subtotal >= 75 ? 0 : 5.99\<close>,
  \<open>subtotal * 0.0875\<close> and \<open>subtotal + shipping + tax\<close> (the sum associates to the left),
  all in doubles. \<open>CheckoutSummary\<close> reads the subtotal off the cart.
\<close>

record amounts =
  am_shipping :: number
  am_tax :: number
  am_total :: number

definition OrderSummary :: "number \<Rightarrow> amounts" where
  "OrderSummary sub =
     (let shipping = (if num_ge sub (round64 75) then round64 0 else round64 5.99);
          tax = num_times sub (round64 0.0875);
          total = num_plus (num_plus sub shipping) tax
      in \<lparr>am_shipping = shipping, am_tax = tax, am_total = total\<rparr>)"

definition CheckoutSummary :: "cart \<Rightarrow> amounts" where
  "CheckoutSummary c =
     (let sub = round64 (subtotal c);
          shipping = (if num_ge sub (round64 75) then round64 0 else round64 5.99);
          tax = num_times sub (round64 0.0875);
          total = num_plus (num_plus sub shipping) tax
      in \<lparr>am_shipping = shipping, am_tax = tax, am_total = total\<rparr>)"

subsection \<open>The checkout form\<close>

record formData =
  f_email :: jsstring
  f_phone :: jsstring
  f_name :: jsstring
  f_street :: jsstring
  f_city :: jsstring
  f_state :: jsstring
  f_zip :: jsstring
  f_cardNumber :: jsstring
  f_cardholderName :: jsstring
  f_expiryDate :: jsstring
  f_securityCode :: jsstring
  f_billingSameAsShipping :: bool

text \<open>
  \<open>newErrors\<close> is an object from field names to messages: an association list, keys in
  insertion order, an assignment to a key that is present replacing its message.
\<close>

type_synonym errors = "(string \<times> string) list"

definition assign :: "string \<Rightarrow> string \<Rightarrow> errors \<Rightarrow> errors" where
  "assign k v e = AList.update k v e"

definition keys :: "errors \<Rightarrow> string list" where
  "keys e = map fst e"

definition validateForm :: "formData \<Rightarrow> errors \<times> bool" where
  "validateForm formData =
     (let e0 = [];
          e1 = (if f_email formData = [] then assign ''email'' ''Email is required'' e0 else e0);
          e2 = (if f_name formData = [] then assign ''name'' ''Full name is required'' e1 else e1);
          e3 = (if f_street formData = []
                then assign ''street'' ''Street address is required'' e2 else e2);
          e4 = (if f_city formData = [] then assign ''city'' ''City is required'' e3 else e3);
          e5 = (if f_state formData = [] then assign ''state'' ''State is required'' e4 else e4);
          e6 = (if f_zip formData = [] then assign ''zip'' ''ZIP code is required'' e5 else e5);
          e7 = (if f_cardNumber formData = []
                then assign ''cardNumber'' ''Card number is required'' e6 else e6);
          e8 = (if f_cardholderName formData = []
                then assign ''cardholderName'' ''Cardholder name is required'' e7 else e7);
          e9 = (if f_expiryDate formData = []
                then assign ''expiryDate'' ''Expiry date is required'' e8 else e8);
          e10 = (if f_securityCode formData = []
                 then assign ''securityCode'' ''Security code is required'' e9 else e9);
          e11 = (if f_email formData \<noteq> [] \<and> \<not> test emailRegex (f_email formData)
                 then assign ''email'' ''Please enter a valid email address'' e10 else e10);
          newErrors = (if f_zip formData \<noteq> [] \<and> \<not> test zipRegex (f_zip formData)
                 then assign ''zip'' ''Please enter a valid ZIP code'' e11 else e11)
      in (newErrors, length (keys newErrors) = 0))"

subsection \<open>Submitting the order\<close>

text \<open>
  The interfaces \<open>CustomerInfo\<close>, \<open>PaymentInfo\<close>, \<open>OrderItem\<close> and \<open>Order\<close> of
  \<open>@/types\<close>, field by field.
\<close>

record shipping_address =
  a_street :: jsstring
  a_city :: jsstring
  a_state :: jsstring
  a_zip :: jsstring

record customer_info =
  c_name :: jsstring
  c_email :: jsstring
  c_phone :: jsstring
  c_shipping_address :: shipping_address

record payment_info =
  pm_method :: jsstring
  pm_last_four :: jsstring

record order_body =
  body_customer_info :: customer_info
  body_payment_info :: payment_info

datatype order_status = pending | processing | shipped | delivered

record order_item =
  oi_product_id :: jsstring
  oi_product_name :: jsstring
  oi_quantity :: int
  oi_price :: rat
  oi_subtotal :: rat

record order =
  o_id :: jsstring
  o_order_number :: jsstring
  o_items :: "order_item list"
  o_customer_info :: customer_info
  o_subtotal :: rat
  o_tax :: rat
  o_shipping :: rat
  o_total :: rat
  o_status :: order_status
  o_created_at :: jsstring
  o_tracking_number :: "jsstring option"

text \<open>
  \<open>ordersApi.createOrder\<close> posts the body to \<open>/orders\<close>; the remote end is again a
  parameter. \<open>slice_js\<close> is \<open>String.prototype.slice\<close> with one argument: a negative start
  counts from the end and is clamped at the beginning of the string.
\<close>

type_synonym 'w order_remote = "order_body \<Rightarrow> 'w \<Rightarrow> (thrown + order) \<times> 'w"

definition slice_js :: "int \<Rightarrow> jsstring \<Rightarrow> jsstring" where
  "slice_js start s =
     (let len = int (length s);
          first = (if start < 0 then max (len + start) 0 else min start len)
      in drop (nat first) s)"

definition orderBody :: "formData \<Rightarrow> order_body" where
  "orderBody formData =
     (let customerInfo =
            \<lparr>c_name = f_name formData, c_email = f_email formData, c_phone = f_phone formData,
             c_shipping_address =
               \<lparr>a_street = f_street formData, a_city = f_city formData,
                a_state = f_state formData, a_zip = f_zip formData\<rparr>\<rparr>;
          paymentInfo =
            \<lparr>pm_method = js ''credit_card'', pm_last_four = slice_js (- 4) (f_cardNumber formData)\<rparr>
      in \<lparr>body_customer_info = customerInfo, body_payment_info = paymentInfo\<rparr>)"

text \<open>
  What a submission ends with: the alert for an empty cart, the form's errors on display,
  the redirect to the confirmation of the order created, or the alert for a failed request.
  With it, the world behind the API and the bodies posted.
\<close>

datatype outcome =
    AlertEmptyCart
  | ShowErrors errors
  | Redirect jsstring
  | AlertOrderError

record 'w submission =
  outcome :: outcome
  after_world :: 'w
  posted :: "order_body list"

text \<open>
  What \<open>CheckoutPage\<close> renders: the spinner while the cart loads, the empty-cart notice
  without a cart or with a cart without items, and otherwise the page with the form whose
  \<open>onSubmit\<close> is \<open>handleSubmit\<close>. A submission is an event of that form, so
  \<open>handleSubmit\<close> runs with the cart of a render that showed the form.
\<close>

datatype view = Spinner | EmptyCartNotice | CheckoutForm

definition CheckoutPage :: "bool \<Rightarrow> cart option \<Rightarrow> view" where
  "CheckoutPage loading' cart' =
     (if loading' then Spinner
      else case cart' of
        None \<Rightarrow> EmptyCartNotice
      | Some c \<Rightarrow> if length (items c) = 0 then EmptyCartNotice else CheckoutForm)"

definition handleSubmit :: "'w order_remote \<Rightarrow> cart option \<Rightarrow> formData \<Rightarrow> 'w \<Rightarrow> 'w submission" where
  "handleSubmit remote cart' formData w =
     (case cart' of
        None \<Rightarrow> \<lparr>outcome = AlertEmptyCart, after_world = w, posted = []\<rparr>
      | Some c \<Rightarrow>
          (if length (items c) = 0
           then \<lparr>outcome = AlertEmptyCart, after_world = w, posted = []\<rparr>
           else if \<not> snd (validateForm formData)
           then \<lparr>outcome = ShowErrors (fst (validateForm formData)), after_world = w, posted = []\<rparr>
           else
             (case remote (orderBody formData) w of
                (Inr order, w') \<Rightarrow>
                  \<lparr>outcome = Redirect (o_id order), after_world = w',
                   posted = [orderBody formData]\<rparr>
              | (Inl e, w') \<Rightarrow>
                  \<lparr>outcome = AlertOrderError, after_world = w',
                   posted = [orderBody formData]\<rparr>)))"

section \<open>The services behind the API\<close>

text \<open>
  The backend (\<open>backend/main.py\<close>) is not among the source files at hand: only its
  documentation and the client that calls it are. The catalog, cart and order services
  are therefore modelled from the specification, each definition saying what it stands
  for. The catalog is a list of products in load order; the carts are a store from
  session identifiers to lists of entries in insertion order; the orders are a list, the
  newest last. An operation that changes the stores returns its result together with the
  services after it; a failed operation returns them as they were.
\<close>

text \<open>
  Modelled from the spec: the error taxonomy of the services, whose declaration is absent
  from the source files: \<open>NotFound\<close>, \<open>InvalidQuantity\<close>, \<open>ValidationError\<close> and
  \<open>EmptyCart\<close>, and the invalid parameters of the interface table.
\<close>

datatype api_error = NotFound | InvalidQuantity | ValidationError | EmptyCart | InvalidParams

text \<open>
  Modelled from the spec: \<open>CartEntry\<close>, whose declaration is absent from the source
  files: a product id and a quantity.
\<close>

record CartEntry =
  ce_productId :: jsstring
  ce_quantity :: int

text \<open>
  Modelled from the spec: \<open>Cart\<close>, whose declaration is absent from the source files: the
  session id, the entries in insertion order, and the derived \<open>totalItems\<close> and
  \<open>subtotal\<close>.
\<close>

record Cart =
  sessionId :: jsstring
  entries :: "CartEntry list"
  totalItems :: int
  cartSubtotal :: rat

text \<open>
  Modelled from the spec: the state of the services, absent from the source files: the
  catalog loaded at start, the keyed store of carts (session id to entries) and the
  orders created so far. The shape of an order is that of the API.
\<close>

record services =
  catalog :: "product list"
  carts :: "jsstring \<Rightarrow> CartEntry list option"
  orders :: "order list"

subsection \<open>Catalog service\<close>

text \<open>
  Modelled from the spec: \<open>getProduct(id)\<close> of the catalog service, absent from the source
  files: the product with that id, or \<open>NotFound\<close> if no product has it.
\<close>

definition getProduct :: "product list \<Rightarrow> jsstring \<Rightarrow> api_error + product" where
  "getProduct cat pid =
     (case find (\<lambda>p. p_id p = pid) cat of None \<Rightarrow> Inl NotFound | Some p \<Rightarrow> Inr p)"

text \<open>
  Modelled from the spec: the result of \<open>listProducts\<close>, whose declaration is absent from
  the source files: the page slice, the count of all matching products, the page and the
  page size in force.
\<close>

record ProductsPage =
  pg_products :: "product list"
  pg_total :: nat
  pg_page :: int
  pg_perPage :: int

text \<open>
  Modelled from the spec: \<open>listProducts(filter, page, perPage)\<close> of the catalog service,
  absent from the source files. \<open>perPage\<close> defaults to 12 and is clamped to at most 50,
  \<open>page\<close> defaults to 1; the products matching the category (all of them without a filter)
  are taken in load order, and the page is the slice of \<open>perPage\<close> of them after the
  \<open>page - 1\<close> pages before it, empty when the page lies past the last product. \<open>total\<close>
  counts the matching products before pagination. A page or page size below 1 is the
  invalid parameter of the interface table (status 400).
\<close>

definition listProducts ::
  "product list \<Rightarrow> jsstring option \<Rightarrow> int option \<Rightarrow> int option \<Rightarrow> api_error + ProductsPage" where
  "listProducts cat category page perPage =
     (let pg = (case page of None \<Rightarrow> 1 | Some n \<Rightarrow> n);
          pp = min 50 (case perPage of None \<Rightarrow> 12 | Some n \<Rightarrow> n);
          matching = (case category of None \<Rightarrow> cat
                      | Some c \<Rightarrow> filter (\<lambda>p. p_category p = c) cat)
      in if pg < 1 \<or> pp < 1 then Inl InvalidParams
         else Inr \<lparr>pg_products = take (nat pp) (drop (nat ((pg - 1) * pp)) matching),
                   pg_total = length matching, pg_page = pg, pg_perPage = pp\<rparr>)"

subsection \<open>Cart service\<close>

text \<open>
  Modelled from the spec: the entries of a session's cart in the store of carts, absent
  from the source files: none for a session that has no cart yet.
\<close>

definition entriesOf :: "services \<Rightarrow> jsstring \<Rightarrow> CartEntry list" where
  "entriesOf srv sid = (case carts srv sid of None \<Rightarrow> [] | Some es \<Rightarrow> es)"

text \<open>
  Modelled from the spec: the price of the product an entry refers to, absent from the
  source files; an id that resolves to no product contributes nothing.
\<close>

definition priceOf :: "product list \<Rightarrow> jsstring \<Rightarrow> rat" where
  "priceOf cat pid = (case find (\<lambda>p. p_id p = pid) cat of None \<Rightarrow> 0 | Some p \<Rightarrow> p_price p)"

text \<open>
  Modelled from the spec: the cart snapshot, absent from the source files, with its
  derived \<open>totalItems\<close> (the sum of the quantities) and \<open>subtotal\<close> (the sum of quantity
  times product price).
\<close>

definition snapshot :: "product list \<Rightarrow> jsstring \<Rightarrow> CartEntry list \<Rightarrow> Cart" where
  "snapshot cat sid es =
     \<lparr>sessionId = sid, entries = es,
      totalItems = sum_list (map ce_quantity es),
      cartSubtotal = sum_list (map (\<lambda>e. of_int (ce_quantity e) * priceOf cat (ce_productId e)) es)\<rparr>"

text \<open>
  Modelled from the spec: \<open>getCart(sessionId)\<close> of the cart service, absent from the source
  files: the session's cart, or an empty cart if there is none yet. It never fails.
\<close>

definition getCart :: "services \<Rightarrow> jsstring \<Rightarrow> Cart" where
  "getCart srv sid = snapshot (catalog srv) sid (entriesOf srv sid)"

text \<open>
  Modelled from the spec: whether a product is in the cart, that is, whether an entry of
  the cart has its id; absent from the source files.
\<close>

definition inCart :: "jsstring \<Rightarrow> CartEntry list \<Rightarrow> bool" where
  "inCart pid es \<longleftrightarrow> pid \<in> set (map ce_productId es)"

text \<open>
  Modelled from the spec: the update of the keyed store of carts at one session, absent
  from the source files; the carts of the other sessions, the catalog and the orders are
  untouched.
\<close>

definition store :: "services \<Rightarrow> jsstring \<Rightarrow> CartEntry list \<Rightarrow> services" where
  "store srv sid es = srv\<lparr>carts := (carts srv)(sid \<mapsto> es)\<rparr>"

text \<open>
  Modelled from the spec: the entry list after adding \<open>quantity\<close> of a product: the
  existing entry for the product has its quantity incremented; without one, a new entry
  is appended at the end.
\<close>

fun increment :: "jsstring \<Rightarrow> int \<Rightarrow> CartEntry list \<Rightarrow> CartEntry list" where
  "increment pid q [] = [\<lparr>ce_productId = pid, ce_quantity = q\<rparr>]"
| "increment pid q (e # es) =
     (if ce_productId e = pid then e\<lparr>ce_quantity := ce_quantity e + q\<rparr> # es
      else e # increment pid q es)"

text \<open>
  Modelled from the spec: \<open>addItem(sessionId, productId, quantity)\<close> of the cart service,
  absent from the source files. It fails with \<open>NotFound\<close> if the product id resolves to
  no product and with \<open>InvalidQuantity\<close> if the quantity is not positive; otherwise it
  increments or appends, and returns the updated snapshot.
\<close>

definition addItem :: "services \<Rightarrow> jsstring \<Rightarrow> jsstring \<Rightarrow> int \<Rightarrow> (api_error + Cart) \<times> services" where
  "addItem srv sid pid q =
     (case getProduct (catalog srv) pid of
        Inl err \<Rightarrow> (Inl err, srv)
      | Inr p \<Rightarrow>
          if q \<le> 0 then (Inl InvalidQuantity, srv)
          else
            let es = increment pid q (entriesOf srv sid)
            in (Inr (snapshot (catalog srv) sid es), store srv sid es))"

text \<open>
  Modelled from the spec: \<open>removeItem(sessionId, productId)\<close> of the cart service, absent
  from the source files. It always succeeds: a product that is not in the cart leaves
  everything as it is and the current snapshot is returned; otherwise the product's entry
  is dropped.
\<close>

definition removeItem :: "services \<Rightarrow> jsstring \<Rightarrow> jsstring \<Rightarrow> (api_error + Cart) \<times> services" where
  "removeItem srv sid pid =
     (let es = entriesOf srv sid in
      if \<not> inCart pid es then (Inr (snapshot (catalog srv) sid es), srv)
      else
        let es' = filter (\<lambda>e. ce_productId e \<noteq> pid) es
        in (Inr (snapshot (catalog srv) sid es'), store srv sid es'))"

text \<open>
  Modelled from the spec: \<open>setQuantity(sessionId, productId, quantity)\<close> of the cart
  service, absent from the source files. It fails with \<open>NotFound\<close> if the product is not
  in the cart; a quantity that is not positive makes it behave as \<open>removeItem\<close>; otherwise
  the entry's quantity is replaced by the given one.
\<close>

definition setQuantity :: "services \<Rightarrow> jsstring \<Rightarrow> jsstring \<Rightarrow> int \<Rightarrow> (api_error + Cart) \<times> services" where
  "setQuantity srv sid pid q =
     (let es = entriesOf srv sid in
      if \<not> inCart pid es then (Inl NotFound, srv)
      else if q \<le> 0 then removeItem srv sid pid
      else
        let es' = map (\<lambda>e. if ce_productId e = pid then e\<lparr>ce_quantity := q\<rparr> else e) es
        in (Inr (snapshot (catalog srv) sid es'), store srv sid es'))"

subsection \<open>Order service\<close>

text \<open>
  Modelled from the spec: the order line of a cart entry, capturing the name and price
  the product has when the order is created; an entry whose product does not resolve is
  invalid and gives no line.
\<close>

definition orderLine :: "product list \<Rightarrow> CartEntry \<Rightarrow> order_item option" where
  "orderLine cat e =
     (case find (\<lambda>p. p_id p = ce_productId e) cat of
        None \<Rightarrow> None
      | Some p \<Rightarrow>
          Some \<lparr>oi_product_id = ce_productId e, oi_product_name = p_name p,
                oi_quantity = ce_quantity e, oi_price = p_price p,
                oi_subtotal = of_int (ce_quantity e) * p_price p\<rparr>)"

text \<open>
  Modelled from the spec: \<open>createOrder(sessionId, customerInfo, paymentInfo)\<close> of the order
  service, absent from the source files. It fails with \<open>EmptyCart\<close> if the session's cart
  has no entry and with \<open>ValidationError\<close> if the customer fields are missing or
  malformed. Otherwise it computes the amounts from the cart's subtotal (shipping free
  from 75, else 5.99; tax at 0.0875), snapshots the entries into order lines, assigns a
  new id and order number, stamps the order, sets it \<open>pending\<close> with no tracking number,
  records it and returns it; the cart is left as it is. What counts as well-formed
  customer fields, how the identifiers are made and what the time is are parameters.
\<close>

definition createOrder ::
  "(customer_info \<Rightarrow> bool) \<Rightarrow> (nat \<Rightarrow> jsstring \<times> jsstring) \<Rightarrow> jsstring \<Rightarrow>
   services \<Rightarrow> jsstring \<Rightarrow> customer_info \<Rightarrow> payment_info \<Rightarrow> (api_error + order) \<times> services" where
  "createOrder wellFormed newIds now srv sid customerInfo paymentInfo =
     (let es = entriesOf srv sid in
      if es = [] then (Inl EmptyCart, srv)
      else if \<not> wellFormed customerInfo then (Inl ValidationError, srv)
      else
        let sub = cartSubtotal (snapshot (catalog srv) sid es);
            shipping = (if sub \<ge> 75 then 0 else 5.99);
            tax = sub * 0.0875;
            ord = \<lparr>o_id = fst (newIds (length (orders srv))),
                   o_order_number = snd (newIds (length (orders srv))),
                   o_items = List.map_filter (orderLine (catalog srv)) es,
                   o_customer_info = customerInfo,
                   o_subtotal = sub, o_tax = tax, o_shipping = shipping,
                   o_total = sub + shipping + tax,
                   o_status = pending, o_created_at = now, o_tracking_number = None\<rparr>
        in (Inr ord, srv\<lparr>orders := orders srv @ [ord]\<rparr>))"

section \<open>Sample values\<close>

text \<open>Concrete products, carts, forms and services at which the theorems are instantiated.\<close>

definition product0 :: product where
  "product0 = \<lparr>p_id = js ''7'', p_name = js ''House Blend'', p_description = js ''Smooth'',
     p_price = 1299 / 100, p_category = js ''beans'', p_roast_level = Medium,
     p_origin = js ''Colombia'', p_image_url = js ''/images/7.jpg'', p_in_stock = True,
     p_weight = js ''12oz'', p_flavor_notes = [js ''Nutty''], p_processing_method = js ''Washed''\<rparr>"

definition cart0 :: cart where
  "cart0 = \<lparr>cart_id = js ''s1'', items = [], total_items = 0, subtotal = 0\<rparr>"

definition provider0 :: "unit provider" where
  "provider0 = \<lparr>cache = initialState, world = (), sent = []\<rparr>"

definition formOk :: formData where
  "formOk = \<lparr>f_email = js ''a@b.co'', f_phone = [], f_name = js ''Ana'',
     f_street = js ''1 Main St'', f_city = js ''Austin'', f_state = js ''TX'',
     f_zip = js ''78701'', f_cardNumber = js ''4111111111111111'',
     f_cardholderName = js ''Ana'', f_expiryDate = js ''12/29'',
     f_securityCode = js ''123'', f_billingSameAsShipping = True\<rparr>"

definition cart1 :: cart where
  "cart1 = \<lparr>cart_id = js ''s1'',
     items = [\<lparr>i_product_id = js ''7'', i_product = product0, i_quantity = 2,
               i_subtotal = 2598 / 100\<rparr>],
     total_items = 2, subtotal = 2598 / 100\<rparr>"

definition order0 :: order where
  "order0 = \<lparr>o_id = js ''o1'', o_order_number = js ''ORD-1'', o_items = [],
     o_customer_info = body_customer_info (orderBody formOk),
     o_subtotal = 0, o_tax = 0, o_shipping = 0, o_total = 0, o_status = pending,
     o_created_at = js ''2024-01-01T00:00:00Z'', o_tracking_number = None\<rparr>"

definition formOther :: formData where
  "formOther = formOk\<lparr>f_cardNumber := js ''5500005555551111'', f_expiryDate := js ''01/30'',
     f_securityCode := js ''9876''\<rparr>"

definition product1 :: product where
  "product1 = \<lparr>p_id = js ''9'', p_name = js ''Espresso Pods'', p_description = js ''Bold'',
     p_price = 1450 / 100, p_category = js ''pods'', p_roast_level = Dark,
     p_origin = js ''Brazil'', p_image_url = js ''/images/9.jpg'', p_in_stock = True,
     p_weight = js ''10ct'', p_flavor_notes = [js ''Cocoa''], p_processing_method = js ''Natural''\<rparr>"

definition services0 :: services where
  "services0 = \<lparr>catalog = [product0, product1], carts = (\<lambda>sid. None), orders = []\<rparr>"

definition services1 :: services where
  "services1 = store services0 (js ''s1'') [\<lparr>ce_productId = js ''7'', ce_quantity = 2\<rparr>]"

section \<open>Properties of the regular expressions\<close>

lemma nullable_lang: "nullable r \<longleftrightarrow> [] \<in> lang r"
  by (induction r) (auto intro: repeats.none)

lemma repeats_cons:
  "c # w \<in> repeats A \<longleftrightarrow> (\<exists>u v. w = u @ v \<and> c # u \<in> A \<and> v \<in> repeats A)"
proof
  assume "c # w \<in> repeats A"
  then show "\<exists>u v. w = u @ v \<and> c # u \<in> A \<and> v \<in> repeats A"
  proof (induction "c # w" arbitrary: w rule: repeats.induct)
    case (more u v)
    show ?case
    proof (cases u)
      case Nil
      with more show ?thesis by simp
    next
      case (Cons a u')
      with more.hyps(1,2,4) show ?thesis by auto
    qed
  qed
next
  assume "\<exists>u v. w = u @ v \<and> c # u \<in> A \<and> v \<in> repeats A"
  then obtain u v where "w = u @ v" "c # u \<in> A" "v \<in> repeats A" by blast
  then have "(c # u) @ v \<in> repeats A" by (intro repeats.more)
  with \<open>w = u @ v\<close> show "c # w \<in> repeats A" by simp
qed

lemma lang_after: "w \<in> lang (after c r) \<longleftrightarrow> c # w \<in> lang r"
proof (induction r arbitrary: w)
  case (Seq r s)
  show ?case
  proof
    assume "w \<in> lang (after c (Seq r s))"
    then consider
        (left) u v where "w = u @ v" "u \<in> lang (after c r)" "v \<in> lang s"
      | (right) "nullable r" "w \<in> lang (after c s)"
      by (auto split: if_splits)
    then show "c # w \<in> lang (Seq r s)"
    proof cases
      case left
      then have "c # u \<in> lang r" using Seq.IH(1) by simp
      with left have "(c # u) @ v \<in> lang (Seq r s)" by (simp del: append_Cons) blast
      with left show ?thesis by simp
    next
      case right
      then have "[] \<in> lang r" "c # w \<in> lang s"
        using Seq.IH(2) by (simp_all add: nullable_lang)
      then have "[] @ (c # w) \<in> lang (Seq r s)" by (simp del: append_Nil) blast
      then show ?thesis by simp
    qed
  next
    assume "c # w \<in> lang (Seq r s)"
    then obtain u v where uv: "c # w = u @ v" "u \<in> lang r" "v \<in> lang s" by auto
    show "w \<in> lang (after c (Seq r s))"
    proof (cases u)
      case Nil
      with uv Seq show ?thesis by (auto simp: nullable_lang)
    next
      case (Cons a u')
      with uv Seq have "u' \<in> lang (after c r)" "w = u' @ v" by auto
      with uv show ?thesis by auto
    qed
  qed
next
  case (Star r)
  then show ?case by (auto simp: repeats_cons)
qed auto

text \<open>\<open>test\<close> decides the language of the pattern.\<close>

lemma test_lang: "test r w \<longleftrightarrow> w \<in> lang r"
  by (induction w arbitrary: r) (simp_all add: nullable_lang lang_after)

lemma Exactly_numeral: "Exactly (numeral k) r = Seq r (Exactly (pred_numeral k) r)"
  by (simp add: numeral_eq_Suc)

lemma repeats_class: "w \<in> repeats {[c] | c. P c} \<longleftrightarrow> list_all P w"
proof
  show "w \<in> repeats {[c] | c. P c} \<Longrightarrow> list_all P w"
    by (induction rule: repeats.induct) auto
next
  show "list_all P w \<Longrightarrow> w \<in> repeats {[c] | c. P c}"
  proof (induction w)
    case Nil
    show ?case by (rule repeats.none)
  next
    case (Cons a w)
    then have "[a] \<in> {[c] | c. P c}" "w \<in> repeats {[c] | c. P c}" by auto
    then have "[a] @ w \<in> repeats {[c] | c. P c}" by (rule repeats.more)
    then show ?case by simp
  qed
qed

lemma lang_Seq_Class:
  "w \<in> lang (Seq (Class P) s) \<longleftrightarrow> (\<exists>c v. w = c # v \<and> P c \<and> v \<in> lang s)"
proof
  assume "w \<in> lang (Seq (Class P) s)"
  then show "\<exists>c v. w = c # v \<and> P c \<and> v \<in> lang s" by auto
next
  assume "\<exists>c v. w = c # v \<and> P c \<and> v \<in> lang s"
  then obtain c v where "w = [c] @ v" "P c" "v \<in> lang s" by auto
  then show "w \<in> lang (Seq (Class P) s)" unfolding lang.simps by blast
qed

lemma lang_OneOrMore_Class: "w \<in> lang (OneOrMore (Class P)) \<longleftrightarrow> w \<noteq> [] \<and> list_all P w"
  unfolding OneOrMore_def lang_Seq_Class by (cases w) (auto simp: repeats_class)

lemma lang_Exactly_Class: "w \<in> lang (Exactly n (Class P)) \<longleftrightarrow> length w = n \<and> list_all P w"
proof (induction n arbitrary: w)
  case 0
  show ?case by auto
next
  case (Suc n)
  show ?case unfolding Exactly.simps lang_Seq_Class by (cases w) (auto simp: Suc)
qed

lemma lang_lit: "w \<in> lang (lit a) \<longleftrightarrow> w = [a]"
  by (auto simp: lit_def)

lemma lang_Seq: "w \<in> lang (Seq r s) \<longleftrightarrow> (\<exists>u v. w = u @ v \<and> u \<in> lang r \<and> v \<in> lang s)"
  by auto

text \<open>
  The email pattern accepts exactly the strings made of a local part, \<open>@\<close>, a middle part,
  a dot and a last part, the three parts non-empty and free of white space and \<open>@\<close> (the
  middle and last parts may hold further dots).
\<close>

lemma test_emailRegex:
  "test emailRegex w \<longleftrightarrow>
     (\<exists>a b c. w = a @ [0x40] @ b @ [0x2E] @ c \<and>
        a \<noteq> [] \<and> list_all notSpaceAt a \<and> b \<noteq> [] \<and> list_all notSpaceAt b \<and>
        c \<noteq> [] \<and> list_all notSpaceAt c)"
  unfolding test_lang emailRegex_def lang_Seq lang_OneOrMore_Class lang_lit
  by blast

text \<open>
  The ZIP pattern accepts exactly five digits, optionally followed by a hyphen and four
  digits.
\<close>

lemma test_zipRegex:
  "test zipRegex w \<longleftrightarrow>
     (length w = 5 \<and> list_all isDigit w) \<or>
     (\<exists>a b. w = a @ [0x2D] @ b \<and> length a = 5 \<and> list_all isDigit a \<and>
            length b = 4 \<and> list_all isDigit b)"
proof -
  have opt: "\<And>v. v \<in> lang (Opt (Seq (lit 0x2D) (Exactly 4 (Class isDigit)))) \<longleftrightarrow>
      v = [] \<or> (\<exists>b. v = [0x2D] @ b \<and> length b = 4 \<and> list_all isDigit b)"
    unfolding Opt_def lang.simps(5) Un_iff lang_Seq lang_Exactly_Class lang_lit by auto
  show ?thesis
    unfolding test_lang zipRegex_def lang_Seq lang_Exactly_Class opt
    by auto
qed

lemma test_emailRegex_Nil: "\<not> test emailRegex []"
  by (simp add: emailRegex_def OneOrMore_def)

lemma test_zipRegex_Nil: "\<not> test zipRegex []"
  by (simp add: zipRegex_def Exactly_numeral)

section \<open>Properties of the numbers\<close>

lemma pow2_pos: "0 < pow2 e"
  by (simp add: pow2_def)

lemma pow2_Suc: "pow2 (e + 1) = 2 * pow2 e"
proof (cases "0 \<le> e")
  case True
  then have "nat (e + 1) = Suc (nat e)" by simp
  with True show ?thesis by (simp add: pow2_def)
next
  case False
  then have "nat (- e) = Suc (nat (- (e + 1)))" by simp
  with False show ?thesis by (simp add: pow2_def)
qed

lemma pow2_mono: "d \<le> e \<Longrightarrow> pow2 d \<le> pow2 e"
proof (induction "nat (e - d)" arbitrary: e)
  case 0
  then show ?case by simp
next
  case (Suc k)
  then have "k = nat ((e - 1) - d)" "d \<le> e - 1" by linarith+
  from Suc.hyps(1) [OF this] have "pow2 d \<le> pow2 (e - 1)" .
  also have "\<dots> \<le> pow2 ((e - 1) + 1)"
    unfolding pow2_Suc using pow2_pos [of "e - 1"] by simp
  finally show ?case by simp
qed

text \<open>The bisection finds the binary exponent of a magnitude in its range.\<close>

lemma exponent_bounds:
  assumes "pow2 lo \<le> a" "a < pow2 hi" "hi - lo \<le> 2 ^ n"
  shows "pow2 (exponent n lo hi a) \<le> a \<and> a < pow2 (exponent n lo hi a + 1)"
  using assms
proof (induction n arbitrary: lo hi)
  case 0
  have "lo < hi"
  proof (rule ccontr)
    assume "\<not> lo < hi"
    then have "pow2 hi \<le> pow2 lo" by (simp add: pow2_mono)
    with 0 show False by simp
  qed
  with 0 have "hi = lo + 1" by simp
  with 0 show ?case by simp
next
  case (Suc n)
  have lt: "lo < hi"
  proof (rule ccontr)
    assume "\<not> lo < hi"
    then have "pow2 hi \<le> pow2 lo" by (simp add: pow2_mono)
    with Suc.prems show False by simp
  qed
  show ?case
  proof (cases "hi \<le> lo + 1")
    case True
    with lt have "hi = lo + 1" by simp
    with Suc.prems True show ?thesis by simp
  next
    case False
    let ?mid = "(lo + hi) div 2"
    from Suc.prems(3) have w: "hi - lo \<le> 2 * 2 ^ n" by simp
    show ?thesis
    proof (cases "pow2 ?mid \<le> a")
      case True
      from w have "hi - ?mid \<le> 2 ^ n" by linarith
      from Suc.IH [OF True Suc.prems(2) this] False True show ?thesis by simp
    next
      case notle: False
      then have "a < pow2 ?mid" by simp
      moreover from w have "?mid - lo \<le> 2 ^ n" by linarith
      ultimately show ?thesis
        using Suc.IH [OF Suc.prems(1), of ?mid] False notle by simp
    qed
  qed
qed

lemma exponent_normal:
  assumes "pow2 (- 1022) \<le> a" "a < pow2 1024"
  shows "pow2 (exponent 11 (- 1022) 1024 a) \<le> a \<and> a < pow2 (exponent 11 (- 1022) 1024 a + 1)"
  by (rule exponent_bounds [OF assms]) simp

text \<open>Rounding to an integer moves by at most one half.\<close>

lemma nearestEven_near: "\<bar>of_int (nearestEven m) - m\<bar> \<le> 1 / 2"
proof -
  define f where "f = \<lfloor>m\<rfloor>"
  define r where "r = m - of_int f"
  have r: "0 \<le> r" "r < 1" unfolding r_def f_def by linarith+
  have m: "m = of_int f + r" by (simp add: r_def)
  have n: "nearestEven m =
      (if r < 1 / 2 then f else if 1 / 2 < r then f + 1 else if even f then f else f + 1)"
    by (simp add: nearestEven_def Let_def f_def r_def)
  have d: "\<bar>of_int (nearestEven m) - m\<bar> = \<bar>of_int (nearestEven m) - of_int f - r\<bar>"
    by (simp add: r_def)
  consider "r < 1 / 2" | "1 / 2 < r" | "r = 1 / 2" by linarith
  then show ?thesis
  proof cases
    case 1
    with n have "nearestEven m = f" by simp
    with 1 r show ?thesis unfolding d by simp
  next
    case 2
    with n have "nearestEven m = f + 1" by simp
    with 2 r show ?thesis unfolding d by simp
  next
    case 3
    with n have "nearestEven m = f \<or> nearestEven m = f + 1" by simp
    with 3 show ?thesis unfolding d by auto
  qed
qed

text \<open>
  In the normal range, \<open>round64\<close> returns a multiple of the spacing of the doubles around
  the argument, at most half a spacing away from it.
\<close>

lemma round64_near:
  assumes "pow2 (- 1022) \<le> \<bar>x\<bar>" "\<bar>x\<bar> < pow2 1024" "round64 x = Finite y"
  shows "\<exists>e n. pow2 e \<le> \<bar>x\<bar> \<and> \<bar>x\<bar> < pow2 (e + 1) \<and>
           y = of_int n * pow2 (e - 52) \<and> \<bar>y - x\<bar> \<le> pow2 (e - 52) / 2"
proof -
  define a where "a = \<bar>x\<bar>"
  define e where "e = exponent 11 (- 1022) 1024 a"
  define k where "k = nearestEven (a / pow2 (e - 52))"
  have a0: "a \<noteq> 0" using assms(1) pow2_pos [of "- 1022"] unfolding a_def by linarith
  have e: "pow2 e \<le> a" "a < pow2 (e + 1)"
    using exponent_normal [of a] assms(1,2) unfolding a_def e_def by blast+
  have res: "round64 x =
      (if pow2 1024 \<le> of_int k * pow2 (e - 52)
       then (if x < 0 then NegInfinity else PosInfinity)
       else Finite (if x < 0 then - (of_int k * pow2 (e - 52)) else of_int k * pow2 (e - 52)))"
    using assms(1,2) a0 unfolding round64_def Let_def a_def [symmetric] e_def k_def by simp
  with assms(3) have y: "y = (if x < 0 then - (of_int k * pow2 (e - 52)) else of_int k * pow2 (e - 52))"
    by (auto split: if_splits)
  have "\<bar>of_int k - a / pow2 (e - 52)\<bar> \<le> 1 / 2"
    unfolding k_def by (rule nearestEven_near)
  then have "\<bar>of_int k - a / pow2 (e - 52)\<bar> * pow2 (e - 52) \<le> 1 / 2 * pow2 (e - 52)"
    using pow2_pos [of "e - 52"] by (simp add: mult_right_mono)
  moreover have "\<bar>of_int k - a / pow2 (e - 52)\<bar> * pow2 (e - 52) =
      \<bar>of_int k * pow2 (e - 52) - a\<bar>"
  proof -
    have p: "0 < pow2 (e - 52)" by (rule pow2_pos)
    then have "(of_int k - a / pow2 (e - 52)) * pow2 (e - 52) = of_int k * pow2 (e - 52) - a"
      by (simp add: field_simps)
    then have "\<bar>of_int k * pow2 (e - 52) - a\<bar> =
        \<bar>of_int k - a / pow2 (e - 52)\<bar> * \<bar>pow2 (e - 52)\<bar>"
      by (simp only: abs_mult [symmetric])
    with p show ?thesis by simp
  qed
  ultimately have close: "\<bar>of_int k * pow2 (e - 52) - a\<bar> \<le> pow2 (e - 52) / 2" by simp
  show ?thesis
  proof (cases "x < 0")
    case True
    then have "a = - x" by (simp add: a_def)
    have "\<bar>- (of_int k * pow2 (e - 52)) - x\<bar> = \<bar>of_int k * pow2 (e - 52) + x\<bar>"
      using abs_minus_cancel [of "of_int k * pow2 (e - 52) + x"] by (simp add: algebra_simps)
    with True y close \<open>a = - x\<close>
    have "y = of_int (- k) * pow2 (e - 52)" "\<bar>y - x\<bar> \<le> pow2 (e - 52) / 2"
      by simp_all
    with e show ?thesis unfolding a_def by blast
  next
    case False
    then have "a = x" by (simp add: a_def)
    with False y close have "y = of_int k * pow2 (e - 52)" "\<bar>y - x\<bar> \<le> pow2 (e - 52) / 2"
      by simp_all
    with e show ?thesis unfolding a_def by blast
  qed
qed

section \<open>Properties of the cart context\<close>

lemma perform_sends:
  "request_of m = Some req \<Longrightarrow> sent (perform remote m pr) = sent pr @ [req]"
  by (cases m)
     (auto simp: addToCart_def updateQuantity_def removeFromCart_def call_def dispatch_def
           split: prod.splits sum.splits if_splits)

lemma perform_silent:
  "request_of m = None \<Longrightarrow> perform remote m pr = pr"
  by (cases m) (auto simp: addToCart_def split: if_splits)

text \<open>
  Claim C7. Whatever the cached state, a mutation (add, update or remove) that calls the
  server issues its one request and ends in one of two ways. If the call succeeds, the
  cached cart is the snapshot
  the server returned, \<open>error\<close> is cleared and \<open>loading\<close> is off. If the call throws,
  \<open>error\<close> holds a message (the thrown error's, or the operation's own text), \<open>loading\<close> is
  off, and the cached cart is the one held before the mutation.
\<close>

theorem mutation_replaces_or_keeps_cart:
  assumes "request_of m = Some req"
  shows "sent (perform remote m pr) = sent pr @ [req] \<and>
         (\<forall>snapshot w'. remote req (world pr) = (Inr snapshot, w') \<longrightarrow>
            cache (perform remote m pr) =
              \<lparr>cart = Some snapshot, loading = False, error = None\<rparr>) \<and>
         (\<forall>e w'. remote req (world pr) = (Inl e, w') \<longrightarrow>
            cart (cache (perform remote m pr)) = cart (cache pr) \<and>
            loading (cache (perform remote m pr)) = False \<and>
            (\<exists>msg. error (cache (perform remote m pr)) = Some msg \<and>
                   (\<forall>t. e = ErrorObj t \<longrightarrow> msg = t)))"
proof -
  have "sent (perform remote m pr) = sent pr @ [req]"
    by (rule perform_sends [OF assms])
  moreover have "(\<forall>snapshot w'. remote req (world pr) = (Inr snapshot, w') \<longrightarrow>
            cache (perform remote m pr) =
              \<lparr>cart = Some snapshot, loading = False, error = None\<rparr>) \<and>
         (\<forall>e w'. remote req (world pr) = (Inl e, w') \<longrightarrow>
            cart (cache (perform remote m pr)) = cart (cache pr) \<and>
            loading (cache (perform remote m pr)) = False \<and>
            (\<exists>msg. error (cache (perform remote m pr)) = Some msg \<and>
                   (\<forall>t. e = ErrorObj t \<longrightarrow> msg = t)))"
    using assms
    by (cases m;
        auto simp: addToCart_def updateQuantity_def removeFromCart_def call_def dispatch_def
                   errorMessage_def
             split: if_splits thrown.splits)
  ultimately show ?thesis by (rule conjI)
qed

theorem mutation_replaces_or_keeps_cart_witness:
  "request_of (Remove (js ''7'')) = Some (DELETE_cart (js ''7'')) \<and>
   cache (perform (\<lambda>r w. (Inr cart0, w)) (Remove (js ''7'')) provider0) =
     \<lparr>cart = Some cart0, loading = False, error = None\<rparr> \<and>
   cart (cache (perform (\<lambda>r w. (Inl (ErrorObj (js ''HTTP 500'')), w)) (Remove (js ''7''))
     (provider0\<lparr>cache := \<lparr>cart = Some cart0, loading = False, error = None\<rparr>\<rparr>))) = Some cart0"
  using mutation_replaces_or_keeps_cart
          [of "Remove (js ''7'')" "DELETE_cart (js ''7'')" "\<lambda>r w. (Inr cart0, w)" provider0]
        mutation_replaces_or_keeps_cart
          [of "Remove (js ''7'')" "DELETE_cart (js ''7'')"
              "\<lambda>r w. (Inl (ErrorObj (js ''HTTP 500'')), w)"
              "provider0\<lparr>cache := \<lparr>cart = Some cart0, loading = False, error = None\<rparr>\<rparr>"]
  by (simp add: provider0_def)

text \<open>
  Claim C9. An \<open>addToCart\<close> of the cart context with a quantity that is not positive
  returns at once: no request is issued, the world behind the API is as it was, and the
  cached state (cart, loading, error) is unchanged. Nothing the server would answer to
  such a quantity can reach the cache on this path.
\<close>

theorem addToCart_nonpositive_noop:
  assumes "quantity \<le> 0"
  shows "addToCart remote p quantity pr = pr"
  using assms by (simp add: addToCart_def)

theorem addToCart_nonpositive_noop_witness:
  "(0::int) \<le> 0 \<and>
   addToCart (\<lambda>r w. (Inl (ErrorObj (js ''Invalid quantity'')), Suc w)) product0 0
     \<lparr>cache = initialState, world = 0, sent = []\<rparr> =
     \<lparr>cache = initialState, world = 0, sent = []\<rparr>"
  using addToCart_nonpositive_noop
          [of 0 "\<lambda>r w. (Inl (ErrorObj (js ''Invalid quantity'')), Suc w)" product0
              "\<lparr>cache = initialState, world = 0, sent = []\<rparr>"]
  by simp

section \<open>Properties of the cart and checkout pages\<close>

lemmas regex_eval = js_def emailRegex_def zipRegex_def OneOrMore_def Opt_def lit_def
  notSpaceAt_def isWhiteSpace_def isDigit_def Exactly_numeral

lemma exponent_numeral:
  "exponent (numeral k) lo hi a =
     (if hi \<le> lo + 1 then lo
      else if pow2 ((lo + hi) div 2) \<le> a then exponent (pred_numeral k) ((lo + hi) div 2) hi a
      else exponent (pred_numeral k) lo ((lo + hi) div 2) a)"
  by (simp add: numeral_eq_Suc)

lemma floor_rat_numeral: "\<lfloor>numeral a / numeral b :: rat\<rfloor> = numeral a div numeral b"
  using floor_divide_of_int_eq [of "numeral a" "numeral b", where ?'a = rat] by simp

lemmas number_eval = round64_def Let_def pow2_def nearestEven_def exponent_numeral
  floor_rat_numeral

text \<open>The doubles of the literals and of the sample subtotals.\<close>

lemma round64_0: "round64 0 = Finite 0"
  by (simp add: round64_def)

lemma round64_75: "round64 75 = Finite 75"
  by (simp add: number_eval)

lemma round64_50: "round64 50 = Finite 50"
  by (simp add: number_eval)

lemma round64_80: "round64 80 = Finite 80"
  by (simp add: number_eval)

lemma round64_5_99: "round64 5.99 = Finite (3372070220993659 / 2 ^ 49)"
  by (simp add: number_eval)

lemma round64_0_0875: "round64 0.0875 = Finite (3152519739159347 / 2 ^ 55)"
  by (simp add: number_eval)

lemma round64_4_375: "round64 4.375 = Finite 4.375"
  by (simp add: number_eval)

lemma round64_60_365: "round64 60.365 = Finite (8495618484569375 / 2 ^ 47)"
  by (simp add: number_eval)

lemma round64_2_8: "round64 2.8 = Finite (3152519739159347 / 2 ^ 50)"
  by (simp add: number_eval)

lemma round64_25_98: "round64 25.98 = Finite (7312719894942843 / 2 ^ 48)"
  by (simp add: number_eval)

lemmas literal_eval = round64_0 round64_75 round64_50 round64_80 round64_5_99 round64_0_0875
  round64_4_375 round64_60_365 round64_2_8 round64_25_98

lemma OrderSummary_50:
  "OrderSummary (round64 50.00) =
     \<lparr>am_shipping = round64 5.99, am_tax = round64 4.375, am_total = round64 60.365\<rparr>"
  unfolding OrderSummary_def Let_def literal_eval by (simp add: number_eval)

lemma OrderSummary_80:
  "OrderSummary (round64 80.00) =
     \<lparr>am_shipping = round64 0, am_tax = round64 7.00, am_total = round64 87.00\<rparr>"
  unfolding OrderSummary_def Let_def literal_eval by (simp add: number_eval)

lemma OrderSummary_2_8:
  "am_tax (OrderSummary (round64 2.8)) = Finite (8827055269646171 / 2 ^ 55)"
  unfolding OrderSummary_def Let_def literal_eval by (simp add: number_eval)

lemma OrderSummary_25_98:
  "OrderSummary (round64 25.98) =
     \<lparr>am_shipping = round64 5.99, am_tax = Finite (2559451963229995 / 2 ^ 50),
      am_total = Finite (4819308998123585 / 2 ^ 47)\<rparr>"
  unfolding OrderSummary_def Let_def literal_eval by (simp add: number_eval)

text \<open>
  Claim C1, as stated, fails: the amounts are computed in doubles, and a product or a sum
  of doubles is rounded. At a subtotal of 2.8 the tax is not \<open>2.8 \<times> 0.0875 = 0.245\<close>, nor
  the double nearest to it, but the double below (printed 0.24499999999999997); at a
  subtotal of 25.98 the total is not \<open>25.98 + 5.99 + 2.27325 = 34.24325\<close>, nor the double
  nearest to it, but the double below (printed 34.243249999999996).
\<close>

theorem exact_amounts_counterexample:
  "am_tax (OrderSummary (round64 2.8)) = Finite (8827055269646171 / 2 ^ 55) \<and>
   am_tax (OrderSummary (round64 2.8)) \<noteq> Finite (2.8 * 0.0875) \<and>
   am_tax (OrderSummary (round64 2.8)) \<noteq> round64 (2.8 * 0.0875) \<and>
   am_total (OrderSummary (round64 25.98)) = Finite (4819308998123585 / 2 ^ 47) \<and>
   am_total (OrderSummary (round64 25.98)) \<noteq> Finite (25.98 + 5.99 + 25.98 * 0.0875) \<and>
   am_total (OrderSummary (round64 25.98)) \<noteq> round64 (25.98 + 5.99 + 25.98 * 0.0875)"
proof -
  have r1: "round64 (2.8 * 0.0875) = Finite (8827055269646172 / 2 ^ 55)"
    by (simp add: number_eval)
  have r2: "round64 (25.98 + 5.99 + 25.98 * 0.0875) = Finite (4819308998123586 / 2 ^ 47)"
    by (simp add: number_eval)
  have tax: "am_tax (OrderSummary (round64 2.8)) = Finite (8827055269646171 / 2 ^ 55)"
    by (rule OrderSummary_2_8)
  have total: "am_total (OrderSummary (round64 25.98)) = Finite (4819308998123585 / 2 ^ 47)"
    unfolding OrderSummary_25_98 by simp
  have "am_tax (OrderSummary (round64 2.8)) \<noteq> Finite (2.8 * 0.0875)"
    unfolding tax by simp
  moreover have "am_tax (OrderSummary (round64 2.8)) \<noteq> round64 (2.8 * 0.0875)"
    unfolding tax r1 by simp
  moreover have "am_total (OrderSummary (round64 25.98)) \<noteq> Finite (25.98 + 5.99 + 25.98 * 0.0875)"
    unfolding total by simp
  moreover have "am_total (OrderSummary (round64 25.98)) \<noteq>
      round64 (25.98 + 5.99 + 25.98 * 0.0875)"
    unfolding total r2 by simp
  ultimately show ?thesis
    using tax total by (intro conjI)
qed

text \<open>
  Claim C1, amended. For every subtotal \<open>s\<close> the order summary, on the cart page and on
  the checkout page alike, has shipping 0 if \<open>s \<ge> 75\<close> and 5.99 otherwise, tax
  \<open>s \<times> 0.0875\<close> and total \<open>(s + shipping) + tax\<close>, where the constants are the doubles of
  the literals and every product and sum is rounded to the nearest double, so that an
  amount can differ from the exact decimal value in its last digits. A subtotal of 50.00
  gives shipping 5.99, tax 4.375 and total 60.365, and a subtotal of 80.00 gives shipping
  0, tax 7.00 and total 87.00: the doubles these decimals denote.
\<close>

theorem order_amounts:
  "am_shipping (OrderSummary s) = (if num_ge s (Finite 75) then Finite 0 else round64 5.99) \<and>
   am_shipping (OrderSummary (Finite x)) = (if 75 \<le> x then Finite 0 else round64 5.99) \<and>
   am_tax (OrderSummary s) = num_times s (round64 0.0875) \<and>
   am_tax (OrderSummary (Finite x)) = round64 (x * (3152519739159347 / 2 ^ 55)) \<and>
   am_total (OrderSummary s) =
     num_plus (num_plus s (am_shipping (OrderSummary s))) (am_tax (OrderSummary s)) \<and>
   CheckoutSummary c = OrderSummary (round64 (subtotal c)) \<and>
   OrderSummary (round64 50.00) =
     \<lparr>am_shipping = round64 5.99, am_tax = round64 4.375, am_total = round64 60.365\<rparr> \<and>
   OrderSummary (round64 80.00) =
     \<lparr>am_shipping = round64 0, am_tax = round64 7.00, am_total = round64 87.00\<rparr>"
proof -
  have ship: "am_shipping (OrderSummary s) =
      (if num_ge s (Finite 75) then Finite 0 else round64 5.99)" for s
    unfolding OrderSummary_def Let_def round64_75 round64_0 by simp
  have tax: "am_tax (OrderSummary s) = num_times s (round64 0.0875)" for s
    unfolding OrderSummary_def Let_def by simp
  have total: "am_total (OrderSummary s) =
      num_plus (num_plus s (am_shipping (OrderSummary s))) (am_tax (OrderSummary s))"
    unfolding OrderSummary_def Let_def by simp
  have page: "CheckoutSummary c = OrderSummary (round64 (subtotal c))"
    unfolding OrderSummary_def CheckoutSummary_def Let_def by (rule refl)
  have ship_fin: "am_shipping (OrderSummary (Finite x)) =
      (if 75 \<le> x then Finite 0 else round64 5.99)"
    unfolding ship num_ge.simps by (rule refl)
  have tax_fin: "am_tax (OrderSummary (Finite x)) = round64 (x * (3152519739159347 / 2 ^ 55))"
    unfolding tax round64_0_0875 num_times.simps by (rule refl)
  from ship ship_fin tax tax_fin total page OrderSummary_50 OrderSummary_80
  show ?thesis by (intro conjI)
qed

theorem order_amounts_witness:
  "CheckoutSummary cart1 =
     \<lparr>am_shipping = round64 5.99, am_tax = Finite (2559451963229995 / 2 ^ 50),
      am_total = Finite (4819308998123585 / 2 ^ 47)\<rparr> \<and>
   am_shipping (OrderSummary (Finite 75)) = Finite 0"
proof -
  note inst = order_amounts [of "Finite 75" 75 cart1]
  have sub: "subtotal cart1 = 25.98" by (simp add: cart1_def)
  from inst have "CheckoutSummary cart1 = OrderSummary (round64 (subtotal cart1))"
    by (elim conjE)
  then have one: "CheckoutSummary cart1 =
     \<lparr>am_shipping = round64 5.99, am_tax = Finite (2559451963229995 / 2 ^ 50),
      am_total = Finite (4819308998123585 / 2 ^ 47)\<rparr>"
    unfolding sub OrderSummary_25_98 .
  from inst have "am_shipping (OrderSummary (Finite 75)) =
      (if (75::rat) \<le> 75 then Finite 0 else round64 5.99)"
    by (elim conjE)
  then have two: "am_shipping (OrderSummary (Finite 75)) = Finite 0" by simp
  from one two show ?thesis by (rule conjI)
qed

lemma assign_step: "((if b then assign k v e else e) = []) \<longleftrightarrow> (\<not> b \<and> e = [])"
  by (cases e) (auto simp: assign_def)

lemma validateForm_ok:
  "snd (validateForm f) \<longleftrightarrow>
     f_email f \<noteq> [] \<and> f_name f \<noteq> [] \<and> f_street f \<noteq> [] \<and> f_city f \<noteq> [] \<and>
     f_state f \<noteq> [] \<and> f_zip f \<noteq> [] \<and> f_cardNumber f \<noteq> [] \<and> f_cardholderName f \<noteq> [] \<and>
     f_expiryDate f \<noteq> [] \<and> f_securityCode f \<noteq> [] \<and>
     test emailRegex (f_email f) \<and> test zipRegex (f_zip f)"
  unfolding validateForm_def Let_def snd_conv keys_def length_0_conv map_is_Nil_conv assign_step
  by blast

lemma formOk_valid: "snd (validateForm formOk)"
  unfolding validateForm_ok by (simp add: formOk_def regex_eval)

lemma posted_cases:
  "posted (handleSubmit remote cart' f w) =
     (if (\<exists>c. cart' = Some c \<and> items c \<noteq> []) \<and> snd (validateForm f) then [orderBody f] else [])"
  by (auto simp: handleSubmit_def split: option.splits prod.splits sum.splits)

lemma CheckoutForm_iff:
  "CheckoutPage loading' cart' = CheckoutForm \<longleftrightarrow>
     \<not> loading' \<and> (\<exists>c. cart' = Some c \<and> items c \<noteq> [])"
  by (auto simp: CheckoutPage_def split: option.splits)

lemma handleSubmit_invalid:
  assumes "cart' = Some c" "items c \<noteq> []" "\<not> snd (validateForm f)"
  shows "handleSubmit remote cart' f w =
     \<lparr>outcome = ShowErrors (fst (validateForm f)), after_world = w, posted = []\<rparr>"
  using assms by (simp add: handleSubmit_def)

lemma handleSubmit_valid:
  assumes "cart' = Some c" "items c \<noteq> []" "snd (validateForm f)"
  shows "handleSubmit remote cart' f w =
     \<lparr>outcome = (case fst (remote (orderBody f) w) of
                   Inr ord \<Rightarrow> Redirect (o_id ord) | Inl e \<Rightarrow> AlertOrderError),
      after_world = snd (remote (orderBody f) w), posted = [orderBody f]\<rparr>"
  using assms by (simp add: handleSubmit_def split: prod.splits sum.splits)

text \<open>
  Claim C8. A checkout submission (an event of the form, which the page renders only for
  a cart with at least one item) fails with a validation error, showing the errors of the
  fields and sending nothing, exactly when a required field is missing or malformed:
  \<open>validateForm\<close> returns false if and only if a required field (email, name, street, city,
  state, ZIP, card number, cardholder name, expiry date, security code) is empty, or the
  email does not match its pattern, or the ZIP code does not match its pattern. Otherwise
  the order request is sent: the remote end is called with the body built from the form,
  and the submission ends with what the remote end answers.
\<close>

theorem checkout_validation:
  assumes "CheckoutPage loading' cart' = CheckoutForm"
  shows "(snd (validateForm f) = False \<longleftrightarrow>
            f_email f = [] \<or> f_name f = [] \<or> f_street f = [] \<or> f_city f = [] \<or>
            f_state f = [] \<or> f_zip f = [] \<or> f_cardNumber f = [] \<or> f_cardholderName f = [] \<or>
            f_expiryDate f = [] \<or> f_securityCode f = [] \<or>
            \<not> test emailRegex (f_email f) \<or> \<not> test zipRegex (f_zip f)) \<and>
         ((\<exists>errs. outcome (handleSubmit remote cart' f w) = ShowErrors errs) \<longleftrightarrow>
            snd (validateForm f) = False) \<and>
         (if snd (validateForm f)
          then handleSubmit remote cart' f w =
                 \<lparr>outcome = (case fst (remote (orderBody f) w) of
                               Inr ord \<Rightarrow> Redirect (o_id ord) | Inl e \<Rightarrow> AlertOrderError),
                  after_world = snd (remote (orderBody f) w), posted = [orderBody f]\<rparr>
          else handleSubmit remote cart' f w =
                 \<lparr>outcome = ShowErrors (fst (validateForm f)), after_world = w, posted = []\<rparr>)"
proof -
  from assms obtain c where c: "cart' = Some c" "items c \<noteq> []"
    unfolding CheckoutForm_iff by blast
  have iff: "snd (validateForm f) = False \<longleftrightarrow>
      f_email f = [] \<or> f_name f = [] \<or> f_street f = [] \<or> f_city f = [] \<or>
      f_state f = [] \<or> f_zip f = [] \<or> f_cardNumber f = [] \<or> f_cardholderName f = [] \<or>
      f_expiryDate f = [] \<or> f_securityCode f = [] \<or>
      \<not> test emailRegex (f_email f) \<or> \<not> test zipRegex (f_zip f)"
    unfolding validateForm_ok by blast
  show ?thesis
  proof (cases "snd (validateForm f)")
    case True
    note run = handleSubmit_valid [OF c True, of remote w]
    have "\<not> (\<exists>errs. outcome (handleSubmit remote cart' f w) = ShowErrors errs)"
      unfolding run by (simp split: sum.splits)
    with True iff run show ?thesis by simp
  next
    case False
    note run = handleSubmit_invalid [OF c False, of remote w]
    have "\<exists>errs. outcome (handleSubmit remote cart' f w) = ShowErrors errs"
      unfolding run by simp
    with False iff run show ?thesis by simp
  qed
qed

theorem checkout_validation_witness:
  "CheckoutPage False (Some cart1) = CheckoutForm \<and> snd (validateForm formOk) \<and>
   handleSubmit (\<lambda>b w. (Inr order0, Suc w)) (Some cart1) formOk 0 =
     \<lparr>outcome = Redirect (js ''o1''), after_world = 1, posted = [orderBody formOk]\<rparr> \<and>
   \<not> snd (validateForm (formOk\<lparr>f_zip := js ''7870''\<rparr>)) \<and>
   posted (handleSubmit (\<lambda>b w. (Inr order0, Suc w)) (Some cart1)
     (formOk\<lparr>f_zip := js ''7870''\<rparr>) 0) = [] \<and>
   after_world (handleSubmit (\<lambda>b w. (Inr order0, Suc w)) (Some cart1)
     (formOk\<lparr>f_zip := js ''7870''\<rparr>) 0) = 0"
proof -
  have form: "CheckoutPage False (Some cart1) = CheckoutForm"
    by (simp add: CheckoutPage_def cart1_def)
  have ok: "snd (validateForm formOk)" by (rule formOk_valid)
  have "\<not> test zipRegex (f_zip (formOk\<lparr>f_zip := js ''7870''\<rparr>))"
    by (simp add: regex_eval)
  then have bad: "\<not> snd (validateForm (formOk\<lparr>f_zip := js ''7870''\<rparr>))"
    unfolding validateForm_ok by blast
  note good_run = checkout_validation [OF form, of formOk "\<lambda>b w. (Inr order0, Suc w)" 0]
  note bad_run = checkout_validation [OF form, of "formOk\<lparr>f_zip := js ''7870''\<rparr>"
      "\<lambda>b w. (Inr order0, Suc w)" 0]
  from good_run ok have one: "handleSubmit (\<lambda>b w. (Inr order0, Suc w)) (Some cart1) formOk 0 =
     \<lparr>outcome = Redirect (js ''o1''), after_world = 1, posted = [orderBody formOk]\<rparr>"
    by (simp add: order0_def)
  from bad_run bad have two: "handleSubmit (\<lambda>b w. (Inr order0, Suc w)) (Some cart1)
      (formOk\<lparr>f_zip := js ''7870''\<rparr>) 0 =
     \<lparr>outcome = ShowErrors (fst (validateForm (formOk\<lparr>f_zip := js ''7870''\<rparr>))),
      after_world = 0, posted = []\<rparr>"
    by simp
  from form ok one bad two show ?thesis by simp
qed

lemma slice_js_last: "slice_js (- 4) s = drop (length s - 4) s"
proof (cases "length s \<ge> 4")
  case True
  then have "nat (int (length s) - 4) = length s - 4" by linarith
  with True show ?thesis by (simp add: slice_js_def Let_def max_def)
next
  case False
  then show ?thesis by (simp add: slice_js_def Let_def max_def)
qed

text \<open>
  Claim C10. The payment information of the order request is the method
  \<open>credit_card\<close> and the last four code units of the card number entered (all of it
  when it is shorter). Two forms that agree on the customer fields and on the last four
  code units of the card number build the same request body, whatever the rest of the
  card number, the expiry date and the security code are; so whenever both submissions
  post a request, the two bodies are identical.
\<close>

theorem payment_data_stays_on_client:
  assumes "f_name f = f_name g" "f_email f = f_email g" "f_phone f = f_phone g"
    and "f_street f = f_street g" "f_city f = f_city g" "f_state f = f_state g"
    and "f_zip f = f_zip g"
    and "drop (length (f_cardNumber f) - 4) (f_cardNumber f) =
         drop (length (f_cardNumber g) - 4) (f_cardNumber g)"
  shows "body_payment_info (orderBody f) =
           \<lparr>pm_method = js ''credit_card'',
            pm_last_four = drop (length (f_cardNumber f) - 4) (f_cardNumber f)\<rparr> \<and>
         orderBody f = orderBody g \<and>
         (\<forall>b \<in> set (posted (handleSubmit remote cart' f w)).
            \<forall>b' \<in> set (posted (handleSubmit remote' cart'' g w')). b = b')"
proof -
  have same: "orderBody f = orderBody g"
    using assms by (simp add: orderBody_def slice_js_last)
  have "set (posted (handleSubmit remote cart' f w)) \<subseteq> {orderBody f}"
    and "set (posted (handleSubmit remote' cart'' g w')) \<subseteq> {orderBody g}"
    by (auto simp: posted_cases)
  with same show ?thesis
    by (auto simp: orderBody_def slice_js_last)
qed

theorem payment_data_stays_on_client_witness:
  "f_cardNumber formOk \<noteq> f_cardNumber formOther \<and>
   f_expiryDate formOk \<noteq> f_expiryDate formOther \<and>
   f_securityCode formOk \<noteq> f_securityCode formOther \<and>
   posted (handleSubmit (\<lambda>b w. (Inr order0, w)) (Some cart1) formOk ()) = [orderBody formOk] \<and>
   posted (handleSubmit (\<lambda>b w. (Inr order0, w)) (Some cart1) formOther ()) = [orderBody formOk] \<and>
   body_payment_info (orderBody formOk) =
     \<lparr>pm_method = js ''credit_card'', pm_last_four = js ''1111''\<rparr>"
proof -
  have other_valid: "snd (validateForm formOther)"
    unfolding validateForm_ok by (simp add: formOther_def formOk_def regex_eval)
  have c: "items cart1 \<noteq> []" by (simp add: cart1_def)
  have differ: "f_cardNumber formOk \<noteq> f_cardNumber formOther"
    "f_expiryDate formOk \<noteq> f_expiryDate formOther"
    "f_securityCode formOk \<noteq> f_securityCode formOther"
    by (simp_all add: formOther_def formOk_def js_def)
  have last4: "drop (length (f_cardNumber formOk) - 4) (f_cardNumber formOk) = js ''1111''"
    "drop (length (f_cardNumber formOther) - 4) (f_cardNumber formOther) = js ''1111''"
    by (simp_all add: formOther_def formOk_def js_def)
  have agree: "f_name formOk = f_name formOther" "f_email formOk = f_email formOther"
    "f_phone formOk = f_phone formOther" "f_street formOk = f_street formOther"
    "f_city formOk = f_city formOther" "f_state formOk = f_state formOther"
    "f_zip formOk = f_zip formOther"
    by (simp_all add: formOther_def)
  have same4: "drop (length (f_cardNumber formOk) - 4) (f_cardNumber formOk) =
      drop (length (f_cardNumber formOther) - 4) (f_cardNumber formOther)"
    by (simp only: last4)
  note inst = payment_data_stays_on_client [OF agree same4, of "\<lambda>b w. (Inr order0, w)"
      "Some cart1" "()" "\<lambda>b w. (Inr order0, w)" "Some cart1" "()"]
  from inst [THEN conjunct1] have pay: "body_payment_info (orderBody formOk) =
           \<lparr>pm_method = js ''credit_card'', pm_last_four = js ''1111''\<rparr>"
    by (simp only: last4)
  from inst [THEN conjunct2, THEN conjunct1] have same: "orderBody formOther = orderBody formOk"
    by (rule sym)
  show ?thesis
    using differ other_valid formOk_valid c pay by (simp add: posted_cases same)
qed

section \<open>Properties of the services\<close>

lemma entriesOf_store [simp]:
  "entriesOf (store srv sid es) sid' = (if sid' = sid then es else entriesOf srv sid')"
  by (simp add: entriesOf_def store_def)

lemma catalog_store [simp]: "catalog (store srv sid es) = catalog srv"
  by (simp add: store_def)

lemma orders_store [simp]: "orders (store srv sid es) = orders srv"
  by (simp add: store_def)

lemma entries_getCart [simp]: "entries (getCart srv sid) = entriesOf srv sid"
  by (simp add: getCart_def snapshot_def)

lemma getCart_store: "getCart (store srv sid es) sid = snapshot (catalog srv) sid es"
  by (simp add: getCart_def)

lemma store_same: "carts srv sid = Some es \<Longrightarrow> store srv sid es = srv"
  by (simp add: store_def fun_upd_idem)

lemma store_store [simp]: "store (store srv sid es) sid es' = store srv sid es'"
  by (simp add: store_def)

lemma increment_absent:
  "\<not> inCart pid es \<Longrightarrow> increment pid q es = es @ [\<lparr>ce_productId = pid, ce_quantity = q\<rparr>]"
  by (induction es) (auto simp: inCart_def)

lemma increment_present:
  "inCart pid es \<Longrightarrow> distinct (map ce_productId es) \<Longrightarrow>
   increment pid q es =
     map (\<lambda>e. if ce_productId e = pid then e\<lparr>ce_quantity := ce_quantity e + q\<rparr> else e) es"
proof (induction es)
  case Nil
  then show ?case by (simp add: inCart_def)
next
  case (Cons e es)
  show ?case
  proof (cases "ce_productId e = pid")
    case True
    with Cons.prems(2) have "pid \<notin> ce_productId ` set es" by simp
    then have "\<forall>x \<in> set es. ce_productId x \<noteq> pid" by blast
    then have "map (\<lambda>e. if ce_productId e = pid then e\<lparr>ce_quantity := ce_quantity e + q\<rparr> else e) es = es"
      by (induction es) auto
    with True show ?thesis by simp
  next
    case False
    with Cons show ?thesis by (auto simp: inCart_def)
  qed
qed

lemma increment_last:
  "\<forall>x \<in> set es. ce_productId x \<noteq> pid \<Longrightarrow>
   increment pid q2 (es @ [\<lparr>ce_productId = pid, ce_quantity = q1\<rparr>]) =
     es @ [\<lparr>ce_productId = pid, ce_quantity = q1 + q2\<rparr>]"
  by (induction es) auto

lemma ids_increment:
  "map ce_productId (increment pid q es) =
     (if inCart pid es then map ce_productId es else map ce_productId es @ [pid])"
  by (induction es) (auto simp: inCart_def)

text \<open>The product ids of a cart stay distinct under the three mutations.\<close>

lemma distinct_increment:
  "distinct (map ce_productId es) \<Longrightarrow> distinct (map ce_productId (increment pid q es))"
  by (simp add: ids_increment) (simp add: inCart_def)

lemma distinct_addItem:
  "distinct (map ce_productId (entriesOf srv sid)) \<Longrightarrow>
   distinct (map ce_productId (entriesOf (snd (addItem srv sid pid q)) sid))"
  by (auto simp: addItem_def Let_def distinct_increment split: sum.splits)

lemma distinct_removeItem:
  "distinct (map ce_productId (entriesOf srv sid)) \<Longrightarrow>
   distinct (map ce_productId (entriesOf (snd (removeItem srv sid pid)) sid))"
  by (auto simp: removeItem_def Let_def distinct_map_filter)

lemma ids_replace:
  "map ce_productId (map (\<lambda>e. if ce_productId e = pid then e\<lparr>ce_quantity := q\<rparr> else e) es) =
   map ce_productId es"
  by (induction es) auto

lemma distinct_setQuantity:
  assumes "distinct (map ce_productId (entriesOf srv sid))"
  shows "distinct (map ce_productId (entriesOf (snd (setQuantity srv sid pid q)) sid))"
proof (cases "inCart pid (entriesOf srv sid) \<and> 0 < q")
  case True
  then have "entriesOf (snd (setQuantity srv sid pid q)) sid =
      map (\<lambda>e. if ce_productId e = pid then e\<lparr>ce_quantity := q\<rparr> else e) (entriesOf srv sid)"
    by (simp add: setQuantity_def Let_def)
  with assms show ?thesis by (simp only: ids_replace)
next
  case False
  then show ?thesis
    using assms distinct_removeItem [of srv sid pid]
    by (auto simp: setQuantity_def Let_def)
qed

lemma addItem_ok:
  assumes "getProduct (catalog srv) pid = Inr p" "0 < q"
  shows "addItem srv sid pid q =
     (Inr (getCart (store srv sid (increment pid q (entriesOf srv sid))) sid),
      store srv sid (increment pid q (entriesOf srv sid)))"
  using assms by (simp add: addItem_def Let_def getCart_store)

lemma removeItem_fst:
  "fst (removeItem srv sid pid) = Inr (getCart (snd (removeItem srv sid pid)) sid)"
  by (simp add: removeItem_def Let_def getCart_def)

lemma removeItem_entries:
  "entriesOf (snd (removeItem srv sid pid)) sid =
     filter (\<lambda>e. ce_productId e \<noteq> pid) (entriesOf srv sid)"
proof (cases "inCart pid (entriesOf srv sid)")
  case True
  then show ?thesis by (simp add: removeItem_def Let_def)
next
  case False
  then have "filter (\<lambda>e. ce_productId e \<noteq> pid) (entriesOf srv sid) = entriesOf srv sid"
    by (auto simp: inCart_def filter_id_conv)
  with False show ?thesis by (simp add: removeItem_def Let_def)
qed

lemma removeItem_absent:
  "\<not> inCart pid (entriesOf srv sid) \<Longrightarrow> removeItem srv sid pid = (Inr (getCart srv sid), srv)"
  by (simp add: removeItem_def Let_def getCart_def)

lemma removeItem_gone: "\<not> inCart pid (entriesOf (snd (removeItem srv sid pid)) sid)"
  by (auto simp: removeItem_entries inCart_def)

lemmas sample_eval = services1_def services0_def store_def entriesOf_def inCart_def getProduct_def
  product0_def product1_def js_def

lemma services1_entries:
  "entries (getCart services1 (js ''s1'')) = [\<lparr>ce_productId = js ''7'', ce_quantity = 2\<rparr>]"
  by (simp add: services1_def)

lemma services1_entriesOf [simp]:
  "entriesOf services1 (js ''s1'') = [\<lparr>ce_productId = js ''7'', ce_quantity = 2\<rparr>]"
  by (simp add: services1_def)

lemma sample_ids_differ [simp]: "js ''9'' \<noteq> js ''7''" "js ''7'' \<noteq> js ''9''"
  by (simp_all add: js_def)

lemma services0_entries: "entries (getCart services0 sid) = []"
  by (simp add: services0_def entriesOf_def)

lemma increment_split:
  "inCart pid es \<Longrightarrow>
   \<exists>xs e ys. es = xs @ e # ys \<and> \<not> inCart pid xs \<and> ce_productId e = pid \<and>
     increment pid q es = xs @ e\<lparr>ce_quantity := ce_quantity e + q\<rparr> # ys"
proof (induction es)
  case Nil
  then show ?case by (simp add: inCart_def)
next
  case (Cons a es)
  show ?case
  proof (cases "ce_productId a = pid")
    case True
    then have "a # es = [] @ a # es \<and> \<not> inCart pid [] \<and> ce_productId a = pid \<and>
        increment pid q (a # es) = [] @ a\<lparr>ce_quantity := ce_quantity a + q\<rparr> # es"
      by (simp add: inCart_def)
    then show ?thesis by blast
  next
    case False
    with Cons.prems have "inCart pid es" by (simp add: inCart_def)
    from Cons.IH [OF this] obtain xs e ys where
      "es = xs @ e # ys" "\<not> inCart pid xs" "ce_productId e = pid"
      "increment pid q es = xs @ e\<lparr>ce_quantity := ce_quantity e + q\<rparr> # ys"
      by blast
    with False have "a # es = (a # xs) @ e # ys \<and> \<not> inCart pid (a # xs) \<and> ce_productId e = pid \<and>
        increment pid q (a # es) = (a # xs) @ e\<lparr>ce_quantity := ce_quantity e + q\<rparr> # ys"
      by (simp add: inCart_def)
    then show ?thesis by blast
  qed
qed

text \<open>
  Claim C2. For a product the catalog knows and a positive quantity, \<open>addItem\<close> succeeds
  and returns the snapshot of the updated cart. If the cart already has an entry for the
  product, that entry (the only one in a cart built by the service, the first one
  otherwise) has its quantity incremented by the given quantity, not replaced by it, and
  the entries before and after it are as they were. If the cart has none, a new entry
  with the given quantity is appended at the end, after the entries that were there; and
  two calls with quantities \<open>q1\<close> and \<open>q2\<close> then leave exactly one entry for the product,
  with quantity \<open>q1 + q2\<close>.
\<close>

theorem addItem_increments_or_appends:
  assumes known: "getProduct (catalog srv) pid = Inr p"
    and pos: "0 < q" "0 < q1" "0 < q2"
  shows
    "(\<exists>srv'. addItem srv sid pid q = (Inr (getCart srv' sid), srv') \<and>
        (inCart pid (entries (getCart srv sid)) \<longrightarrow>
           (\<exists>xs e ys. entries (getCart srv sid) = xs @ e # ys \<and>
              \<not> inCart pid xs \<and> ce_productId e = pid \<and>
              entries (getCart srv' sid) =
                xs @ e\<lparr>ce_quantity := ce_quantity e + q\<rparr> # ys)) \<and>
        (\<not> inCart pid (entries (getCart srv sid)) \<longrightarrow>
           entries (getCart srv' sid) =
             entries (getCart srv sid) @ [\<lparr>ce_productId = pid, ce_quantity = q\<rparr>])) \<and>
     (\<not> inCart pid (entries (getCart srv sid)) \<longrightarrow>
        (\<exists>srv1 srv2.
           addItem srv sid pid q1 = (Inr (getCart srv1 sid), srv1) \<and>
           addItem srv1 sid pid q2 = (Inr (getCart srv2 sid), srv2) \<and>
           entries (getCart srv2 sid) =
             entries (getCart srv sid) @ [\<lparr>ce_productId = pid, ce_quantity = q1 + q2\<rparr>] \<and>
           filter (\<lambda>e. ce_productId e = pid) (entries (getCart srv2 sid)) =
             [\<lparr>ce_productId = pid, ce_quantity = q1 + q2\<rparr>]))"
proof (intro conjI impI)
  let ?es = "entriesOf srv sid"
  let ?srv' = "store srv sid (increment pid q ?es)"
  have "addItem srv sid pid q = (Inr (getCart ?srv' sid), ?srv')"
    by (rule addItem_ok [OF known pos(1)])
  moreover have "inCart pid ?es \<longrightarrow>
      (\<exists>xs e ys. ?es = xs @ e # ys \<and> \<not> inCart pid xs \<and> ce_productId e = pid \<and>
         increment pid q ?es = xs @ e\<lparr>ce_quantity := ce_quantity e + q\<rparr> # ys)"
    using increment_split [of pid ?es q] by blast
  moreover have "\<not> inCart pid ?es \<longrightarrow>
      increment pid q ?es = ?es @ [\<lparr>ce_productId = pid, ce_quantity = q\<rparr>]"
    by (simp add: increment_absent)
  ultimately show "\<exists>srv'. addItem srv sid pid q = (Inr (getCart srv' sid), srv') \<and>
        (inCart pid (entries (getCart srv sid)) \<longrightarrow>
           (\<exists>xs e ys. entries (getCart srv sid) = xs @ e # ys \<and>
              \<not> inCart pid xs \<and> ce_productId e = pid \<and>
              entries (getCart srv' sid) =
                xs @ e\<lparr>ce_quantity := ce_quantity e + q\<rparr> # ys)) \<and>
        (\<not> inCart pid (entries (getCart srv sid)) \<longrightarrow>
           entries (getCart srv' sid) =
             entries (getCart srv sid) @ [\<lparr>ce_productId = pid, ce_quantity = q\<rparr>])"
    by (intro exI [of _ ?srv']) simp
next
  let ?es = "entriesOf srv sid"
  assume "\<not> inCart pid (entries (getCart srv sid))"
  then have absent: "\<not> inCart pid ?es" by simp
  define srv1 where "srv1 = store srv sid (?es @ [\<lparr>ce_productId = pid, ce_quantity = q1\<rparr>])"
  define srv2 where "srv2 = store srv sid (?es @ [\<lparr>ce_productId = pid, ce_quantity = q1 + q2\<rparr>])"
  have one: "addItem srv sid pid q1 = (Inr (getCart srv1 sid), srv1)"
    using addItem_ok [OF known pos(2), of sid] absent by (simp add: increment_absent srv1_def)
  have known1: "getProduct (catalog srv1) pid = Inr p"
    using known by (simp add: srv1_def)
  have nomatch: "\<forall>x \<in> set ?es. ce_productId x \<noteq> pid"
    using absent by (auto simp: inCart_def)
  have inc: "increment pid q2 (?es @ [\<lparr>ce_productId = pid, ce_quantity = q1\<rparr>]) =
      ?es @ [\<lparr>ce_productId = pid, ce_quantity = q1 + q2\<rparr>]"
    using nomatch by (rule increment_last)
  have two: "addItem srv1 sid pid q2 = (Inr (getCart srv2 sid), srv2)"
    using addItem_ok [OF known1 pos(3), of sid] by (simp add: srv1_def srv2_def inc)
  have flt: "filter (\<lambda>e. ce_productId e = pid) ?es = []"
    using nomatch by (simp add: filter_empty_conv)
  show "\<exists>srv1 srv2.
           addItem srv sid pid q1 = (Inr (getCart srv1 sid), srv1) \<and>
           addItem srv1 sid pid q2 = (Inr (getCart srv2 sid), srv2) \<and>
           entries (getCart srv2 sid) =
             entries (getCart srv sid) @ [\<lparr>ce_productId = pid, ce_quantity = q1 + q2\<rparr>] \<and>
           filter (\<lambda>e. ce_productId e = pid) (entries (getCart srv2 sid)) =
             [\<lparr>ce_productId = pid, ce_quantity = q1 + q2\<rparr>]"
    using one two flt by (intro exI [of _ srv1] exI [of _ srv2]) (simp add: srv2_def)
qed

theorem addItem_increments_or_appends_witness:
  "getProduct (catalog services1) (js ''9'') = Inr product1 \<and>
   \<not> inCart (js ''9'') (entries (getCart services1 (js ''s1''))) \<and>
   (\<exists>srv1 srv2.
      addItem services1 (js ''s1'') (js ''9'') 1 = (Inr (getCart srv1 (js ''s1'')), srv1) \<and>
      addItem srv1 (js ''s1'') (js ''9'') 2 = (Inr (getCart srv2 (js ''s1'')), srv2) \<and>
      entries (getCart srv2 (js ''s1'')) =
        [\<lparr>ce_productId = js ''7'', ce_quantity = 2\<rparr>, \<lparr>ce_productId = js ''9'', ce_quantity = 3\<rparr>]) \<and>
   getProduct (catalog services1) (js ''7'') = Inr product0 \<and>
   inCart (js ''7'') (entries (getCart services1 (js ''s1''))) \<and>
   (\<exists>srv'. addItem services1 (js ''s1'') (js ''7'') 4 = (Inr (getCart srv' (js ''s1'')), srv') \<and>
      entries (getCart srv' (js ''s1'')) = [\<lparr>ce_productId = js ''7'', ce_quantity = 6\<rparr>])"
proof -
  have known: "getProduct (catalog services1) (js ''9'') = Inr product1"
    by (simp add: sample_eval)
  have known7: "getProduct (catalog services1) (js ''7'') = Inr product0"
    by (simp add: sample_eval)
  have absent: "\<not> inCart (js ''9'') (entries (getCart services1 (js ''s1'')))"
    by (simp add: inCart_def)
  have present: "inCart (js ''7'') (entries (getCart services1 (js ''s1'')))"
    by (simp add: inCart_def)
  have pos: "(0::int) < 4" "(0::int) < 1" "(0::int) < 2" by simp_all
  from addItem_increments_or_appends [OF known pos, THEN conjunct2] absent
  have "\<exists>srv1 srv2.
      addItem services1 (js ''s1'') (js ''9'') 1 = (Inr (getCart srv1 (js ''s1'')), srv1) \<and>
      addItem srv1 (js ''s1'') (js ''9'') 2 = (Inr (getCart srv2 (js ''s1'')), srv2) \<and>
      entries (getCart srv2 (js ''s1'')) =
        entries (getCart services1 (js ''s1'')) @ [\<lparr>ce_productId = js ''9'', ce_quantity = 1 + 2\<rparr>] \<and>
      filter (\<lambda>e. ce_productId e = js ''9'') (entries (getCart srv2 (js ''s1''))) =
        [\<lparr>ce_productId = js ''9'', ce_quantity = 1 + 2\<rparr>]"
    by (rule mp)
  then obtain srv1 srv2 where
    "addItem services1 (js ''s1'') (js ''9'') 1 = (Inr (getCart srv1 (js ''s1'')), srv1)"
    "addItem srv1 (js ''s1'') (js ''9'') 2 = (Inr (getCart srv2 (js ''s1'')), srv2)"
    "entries (getCart srv2 (js ''s1'')) =
        entries (getCart services1 (js ''s1'')) @ [\<lparr>ce_productId = js ''9'', ce_quantity = 1 + 2\<rparr>]"
    by blast
  then have twice: "\<exists>srv1 srv2.
      addItem services1 (js ''s1'') (js ''9'') 1 = (Inr (getCart srv1 (js ''s1'')), srv1) \<and>
      addItem srv1 (js ''s1'') (js ''9'') 2 = (Inr (getCart srv2 (js ''s1'')), srv2) \<and>
      entries (getCart srv2 (js ''s1'')) =
        [\<lparr>ce_productId = js ''7'', ce_quantity = 2\<rparr>, \<lparr>ce_productId = js ''9'', ce_quantity = 3\<rparr>]"
    unfolding services1_entries by (intro exI [of _ srv1] exI [of _ srv2]) simp
  from addItem_increments_or_appends [OF known7 pos, THEN conjunct1, of "js ''s1''"] present
  obtain srv' xs e ys where inc:
    "addItem services1 (js ''s1'') (js ''7'') 4 = (Inr (getCart srv' (js ''s1'')), srv')"
    "entries (getCart services1 (js ''s1'')) = xs @ e # ys"
    "entries (getCart srv' (js ''s1'')) = xs @ e\<lparr>ce_quantity := ce_quantity e + 4\<rparr> # ys"
    by blast
  from inc(2) have "xs = [] \<and> e = \<lparr>ce_productId = js ''7'', ce_quantity = 2\<rparr> \<and> ys = []"
    unfolding services1_entries by (cases xs) simp_all
  with inc(1,3) have once: "\<exists>srv'. addItem services1 (js ''s1'') (js ''7'') 4 =
        (Inr (getCart srv' (js ''s1'')), srv') \<and>
      entries (getCart srv' (js ''s1'')) = [\<lparr>ce_productId = js ''7'', ce_quantity = 6\<rparr>]"
    by (intro exI [of _ srv']) simp
  from known absent twice known7 present once show ?thesis by blast
qed

text \<open>
  Claim C3. For a product that is in the session's cart, \<open>setQuantity\<close> with a quantity
  that is not positive is \<open>removeItem\<close>: it returns the same snapshot and leaves the same
  services, and the cart read afterwards has no entry for the product; the cart context
  of the client likewise turns such an \<open>updateQuantity\<close> into its \<open>removeFromCart\<close>. With
  a positive quantity \<open>q\<close>, \<open>setQuantity\<close> returns the snapshot of the cart in which the
  product's entry has quantity \<open>q\<close> whatever it had before, the other entries and the
  order unchanged; the client sends that quantity in its update request.
\<close>

theorem setQuantity_removes_or_replaces:
  assumes "inCart pid (entries (getCart srv sid))"
  shows "(q \<le> 0 \<longrightarrow>
            setQuantity srv sid pid q = removeItem srv sid pid \<and>
            fst (setQuantity srv sid pid q) = Inr (getCart (snd (setQuantity srv sid pid q)) sid) \<and>
            \<not> inCart pid (entries (getCart (snd (setQuantity srv sid pid q)) sid)) \<and>
            updateQuantity remote pid q pr = removeFromCart remote pid pr) \<and>
         (0 < q \<longrightarrow>
            (\<exists>srv'. setQuantity srv sid pid q = (Inr (getCart srv' sid), srv') \<and>
               entries (getCart srv' sid) =
                 map (\<lambda>e. if ce_productId e = pid then e\<lparr>ce_quantity := q\<rparr> else e)
                   (entries (getCart srv sid))) \<and>
            sent (updateQuantity remote pid q pr) = sent pr @ [PUT_cart pid q])"
proof (intro conjI impI)
  assume neg: "q \<le> 0"
  with assms show same: "setQuantity srv sid pid q = removeItem srv sid pid"
    by (simp add: setQuantity_def Let_def)
  show "fst (setQuantity srv sid pid q) = Inr (getCart (snd (setQuantity srv sid pid q)) sid)"
    unfolding same by (rule removeItem_fst)
  show "\<not> inCart pid (entries (getCart (snd (setQuantity srv sid pid q)) sid))"
    unfolding same by (simp add: removeItem_gone)
  from neg show "updateQuantity remote pid q pr = removeFromCart remote pid pr"
    by (simp add: updateQuantity_def)
next
  assume pos: "0 < q"
  let ?es' = "map (\<lambda>e. if ce_productId e = pid then e\<lparr>ce_quantity := q\<rparr> else e)
                (entriesOf srv sid)"
  from assms pos have "setQuantity srv sid pid q =
      (Inr (getCart (store srv sid ?es') sid), store srv sid ?es')"
    by (simp add: setQuantity_def Let_def getCart_store)
  then show "\<exists>srv'. setQuantity srv sid pid q = (Inr (getCart srv' sid), srv') \<and>
               entries (getCart srv' sid) =
                 map (\<lambda>e. if ce_productId e = pid then e\<lparr>ce_quantity := q\<rparr> else e)
                   (entries (getCart srv sid))"
    by (intro exI [of _ "store srv sid ?es'"]) simp
  from pos have "request_of (Update pid q) = Some (PUT_cart pid q)" by simp
  from perform_sends [OF this, of remote pr]
  show "sent (updateQuantity remote pid q pr) = sent pr @ [PUT_cart pid q]" by simp
qed

theorem setQuantity_removes_or_replaces_witness:
  "inCart (js ''7'') (entries (getCart services1 (js ''s1''))) \<and>
   setQuantity services1 (js ''s1'') (js ''7'') 0 = removeItem services1 (js ''s1'') (js ''7'') \<and>
   \<not> inCart (js ''7'')
       (entries (getCart (snd (setQuantity services1 (js ''s1'') (js ''7'') 0)) (js ''s1''))) \<and>
   (\<exists>srv'. setQuantity services1 (js ''s1'') (js ''7'') 5 = (Inr (getCart srv' (js ''s1'')), srv') \<and>
      entries (getCart srv' (js ''s1'')) = [\<lparr>ce_productId = js ''7'', ce_quantity = 5\<rparr>])"
proof -
  have present: "inCart (js ''7'') (entries (getCart services1 (js ''s1'')))"
    by (simp add: inCart_def)
  note zero = setQuantity_removes_or_replaces
    [OF present, of 0 "\<lambda>r w. (Inr cart0, w)" provider0, THEN conjunct1]
  note five = setQuantity_removes_or_replaces
    [OF present, of 5 "\<lambda>r w. (Inr cart0, w)" provider0, THEN conjunct2]
  from zero have z: "setQuantity services1 (js ''s1'') (js ''7'') 0 =
      removeItem services1 (js ''s1'') (js ''7'')"
    "\<not> inCart (js ''7'')
       (entries (getCart (snd (setQuantity services1 (js ''s1'') (js ''7'') 0)) (js ''s1'')))"
    by blast+
  from five have "\<exists>srv'. setQuantity services1 (js ''s1'') (js ''7'') 5 =
        (Inr (getCart srv' (js ''s1'')), srv') \<and>
      entries (getCart srv' (js ''s1'')) =
        map (\<lambda>e. if ce_productId e = js ''7'' then e\<lparr>ce_quantity := 5\<rparr> else e)
          (entries (getCart services1 (js ''s1'')))"
    by simp
  then have f: "\<exists>srv'. setQuantity services1 (js ''s1'') (js ''7'') 5 =
        (Inr (getCart srv' (js ''s1'')), srv') \<and>
      entries (getCart srv' (js ''s1'')) = [\<lparr>ce_productId = js ''7'', ce_quantity = 5\<rparr>]"
    unfolding services1_entries by simp
  from present z f show ?thesis by blast
qed

text \<open>
  Claim C4. \<open>removeItem\<close> never fails: for every session and product it returns the
  snapshot of the cart as it is after the call, in which the product has no entry. When
  the product is not in the cart, the snapshot is that of the cart as it was and the
  services are unchanged. Applying it a second time returns the same snapshot and the
  same services as applying it once.
\<close>

theorem removeItem_idempotent:
  "fst (removeItem srv sid pid) = Inr (getCart (snd (removeItem srv sid pid)) sid) \<and>
   \<not> inCart pid (entries (getCart (snd (removeItem srv sid pid)) sid)) \<and>
   (\<not> inCart pid (entries (getCart srv sid)) \<longrightarrow>
      removeItem srv sid pid = (Inr (getCart srv sid), srv)) \<and>
   removeItem (snd (removeItem srv sid pid)) sid pid = removeItem srv sid pid"
proof (intro conjI impI)
  show "fst (removeItem srv sid pid) = Inr (getCart (snd (removeItem srv sid pid)) sid)"
    by (rule removeItem_fst)
  show "\<not> inCart pid (entries (getCart (snd (removeItem srv sid pid)) sid))"
    by (simp add: removeItem_gone)
  show "removeItem (snd (removeItem srv sid pid)) sid pid = removeItem srv sid pid"
    unfolding removeItem_absent [OF removeItem_gone [of pid srv sid]]
    by (simp add: prod_eq_iff removeItem_fst)
next
  assume "\<not> inCart pid (entries (getCart srv sid))"
  then show "removeItem srv sid pid = (Inr (getCart srv sid), srv)"
    by (simp add: removeItem_absent)
qed

theorem removeItem_idempotent_witness:
  "\<not> inCart (js ''9'') (entries (getCart services1 (js ''s1''))) \<and>
   removeItem services1 (js ''s1'') (js ''9'') = (Inr (getCart services1 (js ''s1'')), services1) \<and>
   inCart (js ''7'') (entries (getCart services1 (js ''s1''))) \<and>
   removeItem (snd (removeItem services1 (js ''s1'') (js ''7''))) (js ''s1'') (js ''7'') =
     removeItem services1 (js ''s1'') (js ''7'')"
proof -
  have absent: "\<not> inCart (js ''9'') (entries (getCart services1 (js ''s1'')))"
    by (simp add: inCart_def)
  have present: "inCart (js ''7'') (entries (getCart services1 (js ''s1'')))"
    by (simp add: inCart_def)
  from removeItem_idempotent [of services1 "js ''s1''" "js ''9''"] absent
  have a: "removeItem services1 (js ''s1'') (js ''9'') = (Inr (getCart services1 (js ''s1'')), services1)"
    by blast
  from removeItem_idempotent [of services1 "js ''s1''" "js ''7''"]
  have b: "removeItem (snd (removeItem services1 (js ''s1'') (js ''7''))) (js ''s1'') (js ''7'') =
     removeItem services1 (js ''s1'') (js ''7'')"
    by blast
  from absent a present b show ?thesis by blast
qed

text \<open>
  Claim C5. For a session whose cart has no entry, \<open>createOrder\<close> fails with
  \<open>EmptyCart\<close> and returns the services as they were: the orders recorded are the same,
  no order is created. The checkout page does not even send the request: without a cart,
  or with a cart without items, the submission alerts and leaves the world behind the
  API untouched.
\<close>

theorem createOrder_empty_cart:
  assumes "entries (getCart srv sid) = []"
  shows "createOrder wellFormed newIds now srv sid customerInfo paymentInfo = (Inl EmptyCart, srv) \<and>
         orders (snd (createOrder wellFormed newIds now srv sid customerInfo paymentInfo)) = orders srv \<and>
         handleSubmit remote None f w =
           \<lparr>outcome = AlertEmptyCart, after_world = w, posted = []\<rparr> \<and>
         (items c = [] \<longrightarrow>
            handleSubmit remote (Some c) f w =
              \<lparr>outcome = AlertEmptyCart, after_world = w, posted = []\<rparr>)"
  using assms by (simp add: createOrder_def Let_def handleSubmit_def)

theorem createOrder_empty_cart_witness:
  "entries (getCart services0 (js ''s1'')) = [] \<and>
   createOrder (\<lambda>c. True) (\<lambda>n. (js ''o1'', js ''ORD-1'')) (js ''2024-01-01T00:00:00Z'')
     services0 (js ''s1'') (body_customer_info (orderBody formOk))
     (body_payment_info (orderBody formOk)) = (Inl EmptyCart, services0) \<and>
   posted (handleSubmit (\<lambda>b w. (Inr order0, Suc w)) (Some cart0) formOk 0) = [] \<and>
   after_world (handleSubmit (\<lambda>b w. (Inr order0, Suc w)) (Some cart0) formOk 0) = 0"
proof -
  have empty: "entries (getCart services0 (js ''s1'')) = []" by (rule services0_entries)
  have noitems: "items cart0 = []" by (simp add: cart0_def)
  note inst = createOrder_empty_cart [OF empty, of "\<lambda>c. True" "\<lambda>n. (js ''o1'', js ''ORD-1'')"
      "js ''2024-01-01T00:00:00Z''" "body_customer_info (orderBody formOk)"
      "body_payment_info (orderBody formOk)" "\<lambda>b w. (Inr order0, Suc w)" formOk 0 cart0]
  from inst noitems have
    "handleSubmit (\<lambda>b w. (Inr order0, Suc w)) (Some cart0) formOk 0 =
       \<lparr>outcome = AlertEmptyCart, after_world = 0, posted = []\<rparr>"
    by blast
  with inst empty show ?thesis by simp
qed

text \<open>
  For a page and a page size that are valid (when given, they are at least 1),
  \<open>listProducts\<close> succeeds, and the page it returns is as the specification says.
\<close>

lemma listProducts_valid:
  assumes "\<forall>n. page = Some n \<longrightarrow> 1 \<le> n" and "\<forall>n. perPage = Some n \<longrightarrow> 1 \<le> n"
  shows "\<exists>r. listProducts cat category page perPage = Inr r \<and>
           pg_perPage r = min 50 (case perPage of None \<Rightarrow> 12 | Some n \<Rightarrow> n) \<and>
           pg_page r = (case page of None \<Rightarrow> 1 | Some n \<Rightarrow> n) \<and>
           int (length (pg_products r)) \<le> pg_perPage r \<and>
           (\<forall>n. perPage = Some n \<longrightarrow> int (length (pg_products r)) \<le> n) \<and>
           (\<forall>c. category = Some c \<longrightarrow> (\<forall>p \<in> set (pg_products r). p_category p = c)) \<and>
           pg_total r = length (case category of None \<Rightarrow> cat
                                | Some c \<Rightarrow> filter (\<lambda>p. p_category p = c) cat) \<and>
           (int (pg_total r) \<le> (pg_page r - 1) * pg_perPage r \<longrightarrow> pg_products r = [])"
proof -
  define pg where "pg = (case page of None \<Rightarrow> 1 | Some n \<Rightarrow> n)"
  define pp where "pp = min 50 (case perPage of None \<Rightarrow> 12 | Some n \<Rightarrow> n)"
  define matching where "matching = (case category of None \<Rightarrow> cat
                                | Some c \<Rightarrow> filter (\<lambda>p. p_category p = c) cat)"
  define r where "r = \<lparr>pg_products = take (nat pp) (drop (nat ((pg - 1) * pp)) matching),
                   pg_total = length matching, pg_page = pg, pg_perPage = pp\<rparr>"
  have pg1: "\<not> pg < 1" using assms(1) by (cases page) (simp_all add: pg_def)
  have pp1: "\<not> pp < 1" using assms(2) by (cases perPage) (simp_all add: pp_def)
  have "listProducts cat category page perPage =
      (if pg < 1 \<or> pp < 1 then Inl InvalidParams else Inr r)"
    unfolding listProducts_def Let_def r_def pg_def pp_def matching_def ..
  with pg1 pp1 have res: "listProducts cat category page perPage = Inr r" by simp
  have sel: "pg_products r = take (nat pp) (drop (nat ((pg - 1) * pp)) matching)"
    "pg_total r = length matching" "pg_page r = pg" "pg_perPage r = pp"
    by (simp_all add: r_def)
  have "length (pg_products r) \<le> nat pp" unfolding sel by simp
  with pp1 have len: "int (length (pg_products r)) \<le> pp" by linarith
  have given: "\<forall>n. perPage = Some n \<longrightarrow> int (length (pg_products r)) \<le> n"
  proof (intro allI impI)
    fix n assume "perPage = Some n"
    then have "pp \<le> n" by (simp add: pp_def)
    with len show "int (length (pg_products r)) \<le> n" by linarith
  qed
  have "set (pg_products r) \<subseteq> set matching"
    unfolding sel by (meson set_take_subset set_drop_subset subset_trans)
  then have cat: "\<forall>c. category = Some c \<longrightarrow> (\<forall>p \<in> set (pg_products r). p_category p = c)"
    by (auto simp: matching_def)
  have past: "int (pg_total r) \<le> (pg_page r - 1) * pg_perPage r \<longrightarrow> pg_products r = []"
  proof
    assume "int (pg_total r) \<le> (pg_page r - 1) * pg_perPage r"
    then have "int (length matching) \<le> (pg - 1) * pp" unfolding sel .
    then have "length matching \<le> nat ((pg - 1) * pp)" by (rule iffD2 [OF le_nat_iff, rotated]) (use pg1 pp1 in simp)
    then show "pg_products r = []" unfolding sel by simp
  qed
  show ?thesis
  proof (intro exI [of _ r] conjI)
    show "listProducts cat category page perPage = Inr r" by (rule res)
    show "pg_perPage r = min 50 (case perPage of None \<Rightarrow> 12 | Some n \<Rightarrow> n)"
      unfolding sel pp_def ..
    show "pg_page r = (case page of None \<Rightarrow> 1 | Some n \<Rightarrow> n)"
      unfolding sel pg_def ..
    show "int (length (pg_products r)) \<le> pg_perPage r" using len unfolding sel(4) .
    show "\<forall>n. perPage = Some n \<longrightarrow> int (length (pg_products r)) \<le> n" by (rule given)
    show "\<forall>c. category = Some c \<longrightarrow> (\<forall>p \<in> set (pg_products r). p_category p = c)" by (rule cat)
    show "pg_total r = length (case category of None \<Rightarrow> cat
                                | Some c \<Rightarrow> filter (\<lambda>p. p_category p = c) cat)"
      unfolding sel matching_def ..
    show "int (pg_total r) \<le> (pg_page r - 1) * pg_perPage r \<longrightarrow> pg_products r = []" by (rule past)
  qed
qed

lemma listProducts_Inr_valid:
  assumes "listProducts cat category page perPage = Inr r"
  shows "(\<forall>n. page = Some n \<longrightarrow> 1 \<le> n) \<and> (\<forall>n. perPage = Some n \<longrightarrow> 1 \<le> n)"
proof -
  define pg where "pg = (case page of None \<Rightarrow> 1 | Some n \<Rightarrow> n)"
  define pp where "pp = min 50 (case perPage of None \<Rightarrow> 12 | Some n \<Rightarrow> n)"
  have "pg < 1 \<or> pp < 1 \<Longrightarrow> listProducts cat category page perPage = Inl InvalidParams"
    unfolding listProducts_def Let_def pg_def pp_def by simp
  with assms have "\<not> pg < 1" "\<not> pp < 1" by auto
  then show ?thesis by (auto simp: pg_def pp_def)
qed

text \<open>
  Claim C6. For every category filter, page and page size, whenever \<open>listProducts\<close>
  returns a page, the page size in force is the one given, clamped to 50, or 12 when
  none is given; the page is the one given, or 1; the products returned are at most as
  many as the page size in force, hence as the page size given; each of them is of the
  category asked for when a category is given; and a page that starts past the last
  matching product is empty. It does return a page, not an error, for every page and
  page size that are valid (at least 1 when given), so also for a page past the end.
\<close>

theorem listProducts_page:
  "(\<forall>r. listProducts cat category page perPage = Inr r \<longrightarrow>
      pg_perPage r = min 50 (case perPage of None \<Rightarrow> 12 | Some n \<Rightarrow> n) \<and>
      pg_page r = (case page of None \<Rightarrow> 1 | Some n \<Rightarrow> n) \<and>
      int (length (pg_products r)) \<le> pg_perPage r \<and>
      (\<forall>n. perPage = Some n \<longrightarrow> int (length (pg_products r)) \<le> n) \<and>
      (\<forall>c. category = Some c \<longrightarrow> (\<forall>p \<in> set (pg_products r). p_category p = c)) \<and>
      pg_total r = length (case category of None \<Rightarrow> cat
                           | Some c \<Rightarrow> filter (\<lambda>p. p_category p = c) cat) \<and>
      (int (pg_total r) \<le> (pg_page r - 1) * pg_perPage r \<longrightarrow> pg_products r = [])) \<and>
   ((\<forall>n. page = Some n \<longrightarrow> 1 \<le> n) \<and> (\<forall>n. perPage = Some n \<longrightarrow> 1 \<le> n) \<longrightarrow>
      (\<exists>r. listProducts cat category page perPage = Inr r))"
proof (rule conjI)
  show "\<forall>r. listProducts cat category page perPage = Inr r \<longrightarrow>
      pg_perPage r = min 50 (case perPage of None \<Rightarrow> 12 | Some n \<Rightarrow> n) \<and>
      pg_page r = (case page of None \<Rightarrow> 1 | Some n \<Rightarrow> n) \<and>
      int (length (pg_products r)) \<le> pg_perPage r \<and>
      (\<forall>n. perPage = Some n \<longrightarrow> int (length (pg_products r)) \<le> n) \<and>
      (\<forall>c. category = Some c \<longrightarrow> (\<forall>p \<in> set (pg_products r). p_category p = c)) \<and>
      pg_total r = length (case category of None \<Rightarrow> cat
                           | Some c \<Rightarrow> filter (\<lambda>p. p_category p = c) cat) \<and>
      (int (pg_total r) \<le> (pg_page r - 1) * pg_perPage r \<longrightarrow> pg_products r = [])"
  proof (rule allI, rule impI)
    fix r
    assume res: "listProducts cat category page perPage = Inr r"
    from listProducts_Inr_valid [OF res]
    have "\<forall>n. page = Some n \<longrightarrow> 1 \<le> n" "\<forall>n. perPage = Some n \<longrightarrow> 1 \<le> n" by blast+
    from listProducts_valid [OF this, of cat category]
    obtain r0 where r0: "listProducts cat category page perPage = Inr r0"
      and props: "pg_perPage r0 = min 50 (case perPage of None \<Rightarrow> 12 | Some n \<Rightarrow> n) \<and>
      pg_page r0 = (case page of None \<Rightarrow> 1 | Some n \<Rightarrow> n) \<and>
      int (length (pg_products r0)) \<le> pg_perPage r0 \<and>
      (\<forall>n. perPage = Some n \<longrightarrow> int (length (pg_products r0)) \<le> n) \<and>
      (\<forall>c. category = Some c \<longrightarrow> (\<forall>p \<in> set (pg_products r0). p_category p = c)) \<and>
      pg_total r0 = length (case category of None \<Rightarrow> cat
                           | Some c \<Rightarrow> filter (\<lambda>p. p_category p = c) cat) \<and>
      (int (pg_total r0) \<le> (pg_page r0 - 1) * pg_perPage r0 \<longrightarrow> pg_products r0 = [])"
      by blast
    from res r0 have eq: "r0 = r" by simp
    show "pg_perPage r = min 50 (case perPage of None \<Rightarrow> 12 | Some n \<Rightarrow> n) \<and>
      pg_page r = (case page of None \<Rightarrow> 1 | Some n \<Rightarrow> n) \<and>
      int (length (pg_products r)) \<le> pg_perPage r \<and>
      (\<forall>n. perPage = Some n \<longrightarrow> int (length (pg_products r)) \<le> n) \<and>
      (\<forall>c. category = Some c \<longrightarrow> (\<forall>p \<in> set (pg_products r). p_category p = c)) \<and>
      pg_total r = length (case category of None \<Rightarrow> cat
                           | Some c \<Rightarrow> filter (\<lambda>p. p_category p = c) cat) \<and>
      (int (pg_total r) \<le> (pg_page r - 1) * pg_perPage r \<longrightarrow> pg_products r = [])"
      using props unfolding eq .
  qed
next
  show "(\<forall>n. page = Some n \<longrightarrow> 1 \<le> n) \<and> (\<forall>n. perPage = Some n \<longrightarrow> 1 \<le> n) \<longrightarrow>
      (\<exists>r. listProducts cat category page perPage = Inr r)"
  proof
    assume "(\<forall>n. page = Some n \<longrightarrow> 1 \<le> n) \<and> (\<forall>n. perPage = Some n \<longrightarrow> 1 \<le> n)"
    then have "\<forall>n. page = Some n \<longrightarrow> 1 \<le> n" "\<forall>n. perPage = Some n \<longrightarrow> 1 \<le> n" by blast+
    from listProducts_valid [OF this, of cat category]
    show "\<exists>r. listProducts cat category page perPage = Inr r" by blast
  qed
qed

theorem listProducts_page_witness:
  "listProducts [product0, product1] (Some (js ''pods'')) (Some 1) (Some 100) =
     Inr \<lparr>pg_products = [product1], pg_total = 1, pg_page = 1, pg_perPage = 50\<rparr> \<and>
   listProducts [product0, product1] None (Some 3) None =
     Inr \<lparr>pg_products = [], pg_total = 2, pg_page = 3, pg_perPage = 12\<rparr>"
proof -
  note one = listProducts_page [of "[product0, product1]" "Some (js ''pods'')" "Some 1" "Some 100"]
  note two = listProducts_page [of "[product0, product1]" None "Some 3" None]
  have "\<exists>r. listProducts [product0, product1] (Some (js ''pods'')) (Some 1) (Some 100) = Inr r"
    by (rule one [THEN conjunct2, THEN mp]) simp
  then obtain r where r: "listProducts [product0, product1] (Some (js ''pods'')) (Some 1) (Some 100) = Inr r"
    by blast
  from one [THEN conjunct1, THEN spec, THEN mp, OF r]
  have "pg_perPage r = 50" "pg_page r = 1" by simp_all
  moreover have "category_matches = [product1]"
    if "category_matches = filter (\<lambda>p. p_category p = js ''pods'') [product0, product1]"
    for category_matches
    using that by (simp add: product0_def product1_def js_def)
  then have "pg_products r = [product1]" "pg_total r = 1"
    using r by (auto simp: listProducts_def Let_def)
  ultimately have first: "listProducts [product0, product1] (Some (js ''pods'')) (Some 1) (Some 100) =
     Inr \<lparr>pg_products = [product1], pg_total = 1, pg_page = 1, pg_perPage = 50\<rparr>"
    using r by simp
  have "\<exists>r. listProducts [product0, product1] None (Some 3) None = Inr r"
    by (rule two [THEN conjunct2, THEN mp]) simp
  then obtain r' where r': "listProducts [product0, product1] None (Some 3) None = Inr r'"
    by blast
  from two [THEN conjunct1, THEN spec, THEN mp, OF r']
  have props: "pg_perPage r' = 12" "pg_page r' = 3" "pg_total r' = 2"
    "int (pg_total r') \<le> (pg_page r' - 1) * pg_perPage r' \<longrightarrow> pg_products r' = []"
    by simp_all
  then have "pg_products r' = []" by simp
  with r' props have "listProducts [product0, product1] None (Some 3) None =
     Inr \<lparr>pg_products = [], pg_total = 2, pg_page = 3, pg_perPage = 12\<rparr>"
    by simp
  with first show ?thesis by simp
qed

end

